theory Spec2Isabelle
  imports Complex_Main "HOL-Library.Signed_Division" "HOL-Library.Multiset"
begin

section \<open>Python values and exceptions\<close>

text \<open>
  The exceptions the four modules can raise, as values. A function of the source that can
  raise returns \<open>error + 'a\<close>, with \<open>Inl\<close> for the exception.
\<close>

datatype error = ZeroDivisionError | IndexError | TypeError | ValueError | CvError

text \<open>
  All four modules start with \<^verbatim>\<open>from __future__ import division\<close> or run on Python 3:
  \<^verbatim>\<open>a / b\<close> is true division and raises on a zero divisor. Quotients are computed in the
  real numbers; \<^verbatim>\<open>int(r)\<close> truncates towards zero.
\<close>

definition truediv :: "real \<Rightarrow> real \<Rightarrow> error + real" where
  "truediv a b = (if b = 0 then Inl ZeroDivisionError else Inr (a / b))"

definition py_int :: "real \<Rightarrow> int" where
  "py_int r = (if r < 0 then \<lceil>r\<rceil> else \<lfloor>r\<rfloor>)"

text \<open>
  A Python float is an IEEE binary64 number. \<open>double x\<close> is the double nearest to the real
  \<open>x\<close>, ties going to the even significand: \<open>binade x\<close> is the exponent \<open>e\<close> with
  \<open>2^e \<le> |x| < 2^(e+1)\<close>, and \<open>x\<close> is rounded to a multiple of \<open>2^(e-52)\<close>. The exponent
  is not bounded: the numbers rounded in this program (quotients of pixel counts, the
  literal 0.48 and their differences) are zero or far inside the normal range. A float
  operation returns the rounding of the exact result, and so does true division of two
  integers.
\<close>

definition binade :: "real \<Rightarrow> int" where
  "binade x = \<lfloor>log 2 \<bar>x\<bar>\<rfloor>"

definition round_half_even :: "real \<Rightarrow> int" where
  "round_half_even y =
     (let f = \<lfloor>y\<rfloor>; r = y - of_int f
      in if r < 1 / 2 then f else if 1 / 2 < r then f + 1 else if even f then f else f + 1)"

definition double :: "real \<Rightarrow> real" where
  "double x =
     (if x = 0 then 0
      else of_int (round_half_even (x / 2 powr (of_int (binade x) - 52)))
             * 2 powr (of_int (binade x) - 52))"

text \<open>\<^verbatim>\<open>range(start, stop, step)\<close> for a positive step.\<close>

definition py_range :: "int \<Rightarrow> int \<Rightarrow> int \<Rightarrow> int list" where
  "py_range start stop step =
     map (\<lambda>k. start + step * int k) [0..<nat ((stop - start + step - 1) div step)]"

text \<open>
  \<^verbatim>\<open>xs[i]\<close> on a list: positions \<open>0 .. len - 1\<close> read forwards, positions
  \<open>-len .. -1\<close> read backwards from the last element, any other position raises IndexError.
\<close>

definition py_index :: "'a list \<Rightarrow> int \<Rightarrow> error + 'a" where
  "py_index xs i =
     (if 0 \<le> i \<and> i < int (length xs) then Inr (xs ! nat i)
      else if i < 0 \<and> - int (length xs) \<le> i then Inr (xs ! nat (int (length xs) + i))
      else Inl IndexError)"

text \<open>
  \<^verbatim>\<open>min(iterable, key=f)\<close>: the first element whose key is minimal; an empty iterable
  raises ValueError.
\<close>

fun py_min :: "('a \<Rightarrow> 'k::linorder) \<Rightarrow> 'a list \<Rightarrow> error + 'a" where
  "py_min key [] = Inl ValueError"
| "py_min key (x # xs) = Inr (foldl (\<lambda>best y. if key y < key best then y else best) x xs)"

text \<open>
  The bound of a slice \<^verbatim>\<open>a[i:j]\<close> on an axis of length \<open>n\<close>: a negative bound counts from
  the end, and every bound is clipped to \<open>0..n\<close>.
\<close>

definition slice_bound :: "nat \<Rightarrow> int \<Rightarrow> nat" where
  "slice_bound n i = (if i < 0 then nat (max 0 (int n + i)) else min (nat i) n)"

section \<open>Images and the external libraries\<close>

text \<open>
  A two-dimensional \<^verbatim>\<open>numpy.ndarray\<close> of dtype uint8: its shape and its pixels
  (row, then column). Only pixels inside the shape are meaningful.
\<close>

record image =
  nrows :: nat
  ncols :: nat
  pixel :: "nat \<Rightarrow> nat \<Rightarrow> nat"

definition shape :: "image \<Rightarrow> nat \<times> nat" where
  "shape img = (nrows img, ncols img)"

text \<open>\<^verbatim>\<open>img[r0:r1, c0:c1]\<close>; an empty slice gives an axis of length 0.\<close>

definition np_slice :: "image \<Rightarrow> int \<Rightarrow> int \<Rightarrow> int \<Rightarrow> int \<Rightarrow> image" where
  "np_slice img r0 r1 c0 c1 =
     (let rlo = slice_bound (nrows img) r0; rhi = slice_bound (nrows img) r1;
          clo = slice_bound (ncols img) c0; chi = slice_bound (ncols img) c1
      in \<lparr>nrows = rhi - rlo, ncols = chi - clo,
          pixel = (\<lambda>i j. pixel img (rlo + i) (clo + j))\<rparr>)"

text \<open>\<^verbatim>\<open>np.ones\<close>, \<^verbatim>\<open>np.zeros\<close>, \<^verbatim>\<open>np.full\<close>.\<close>

definition np_full :: "nat \<times> nat \<Rightarrow> nat \<Rightarrow> image" where
  "np_full shp v = \<lparr>nrows = fst shp, ncols = snd shp, pixel = (\<lambda>i j. v)\<rparr>"

type_synonym contour = "(int \<times> int) list"

record moments =
  m00 :: real
  m10 :: real
  m01 :: real

text \<open>
  The primitives of the image library whose result the source only passes on
  (smoothing, erosion, polygon fill, contour extraction, contour area and moments, colour
  conversion) are parameters of the model.
\<close>

record cv2 =
  bilateralFilter :: "image \<Rightarrow> nat \<Rightarrow> real \<Rightarrow> real \<Rightarrow> image"
  erode :: "image \<Rightarrow> image \<Rightarrow> nat \<Rightarrow> image"
  fillPoly :: "image \<Rightarrow> contour \<Rightarrow> nat \<Rightarrow> image"
  findContours :: "image \<Rightarrow> contour list"
  contourArea :: "contour \<Rightarrow> real"
  cv_moments :: "contour \<Rightarrow> moments"
  cvtColor :: "image \<Rightarrow> image"

text \<open>
  Modelled from the spec: fixed global-threshold binarization
  (\<^verbatim>\<open>cv2.threshold(src, thresh, maxval, cv2.THRESH_BINARY)[1]\<close>: pixels greater than the
  threshold become \<open>maxval\<close>, the others 0), and the count of non-zero pixels
  (\<^verbatim>\<open>cv2.countNonZero\<close>).
\<close>

definition cv_threshold :: "image \<Rightarrow> int \<Rightarrow> nat \<Rightarrow> image" where
  "cv_threshold src thresh maxval =
     src\<lparr>pixel := (\<lambda>i j. if thresh < int (pixel src i j) then maxval else 0)\<rparr>"

definition countNonZero :: "image \<Rightarrow> nat" where
  "countNonZero img =
     (\<Sum>i\<leftarrow>[0..<nrows img]. \<Sum>j\<leftarrow>[0..<ncols img]. if pixel img i j \<noteq> 0 then 1 else 0)"

text \<open>
  \<^verbatim>\<open>cv2.bitwise_not(src, dst, mask=mask)\<close> with a destination given: where the mask is
  non-zero the destination receives the inverted source pixel, elsewhere it keeps its own.
\<close>

definition bitwise_not :: "image \<Rightarrow> image \<Rightarrow> image \<Rightarrow> image" where
  "bitwise_not src dst msk =
     dst\<lparr>pixel := (\<lambda>i j. if pixel msk i j \<noteq> 0 then 255 - pixel src i j else pixel dst i j)\<rparr>"

section \<open>pupil.py: image processing\<close>

text \<open>\<^verbatim>\<open>Pupil.image_processing\<close> (static).\<close>

definition image_processing :: "cv2 \<Rightarrow> image \<Rightarrow> int \<Rightarrow> image" where
  "image_processing cv eye_frame threshold =
     (let kernel = np_full (3, 3) 1;
          new_frame = bilateralFilter cv eye_frame 10 15 15;
          new_frame = erode cv new_frame kernel 3;
          new_frame = cv_threshold new_frame threshold 255
      in new_frame)"

section \<open>calibration.py\<close>

record calibration =
  nb_frames :: nat
  thresholds_left :: "int list"
  thresholds_right :: "int list"

text \<open>\<^verbatim>\<open>Calibration.__init__\<close>.\<close>

definition Calibration_init :: calibration where
  "Calibration_init = \<lparr>nb_frames = 20, thresholds_left = [], thresholds_right = []\<rparr>"

definition is_complete :: "calibration \<Rightarrow> bool" where
  "is_complete cal =
     (length (thresholds_left cal) \<ge> nb_frames cal \<and> length (thresholds_right cal) \<ge> nb_frames cal)"

text \<open>
  \<^verbatim>\<open>Calibration.threshold\<close>: a side other than 0 and 1 falls through both branches and the
  method returns \<^verbatim>\<open>None\<close>.
\<close>

definition threshold :: "calibration \<Rightarrow> int \<Rightarrow> error + int option" where
  "threshold cal side =
     (if side = 0 then
        (case truediv (real_of_int (sum_list (thresholds_left cal)))
                      (real (length (thresholds_left cal))) of
           Inl e \<Rightarrow> Inl e
         | Inr q \<Rightarrow> Inr (Some (py_int q)))
      else if side = 1 then
        (case truediv (real_of_int (sum_list (thresholds_right cal)))
                      (real (length (thresholds_right cal))) of
           Inl e \<Rightarrow> Inl e
         | Inr q \<Rightarrow> Inr (Some (py_int q)))
      else Inr None)"

text \<open>\<^verbatim>\<open>Calibration.iris_size\<close> (static), on a binarized frame.\<close>

definition iris_size :: "image \<Rightarrow> error + real" where
  "iris_size frame0 =
     (let frame = np_slice frame0 5 (-5) 5 (-5);
          (height, width) = shape frame;
          nb_pixels = int height * int width;
          nb_blacks = nb_pixels - int (countNonZero frame)
      in truediv (real_of_int nb_blacks) (real_of_int nb_pixels))"

text \<open>
  The loop of \<^verbatim>\<open>Calibration.find_best_threshold\<close>: \<open>trials\<close> is the dictionary as the list
  of its items in insertion order (the keys of one run are distinct). An exception in the
  body leaves the loop. \<open>iris_size\<close> gives the exact quotient; the value the program
  stores is the float that the division returned, \<open>double s\<close>.
\<close>

fun trials_loop ::
  "cv2 \<Rightarrow> image \<Rightarrow> int list \<Rightarrow> (int \<times> real) list \<Rightarrow> error + (int \<times> real) list" where
  "trials_loop cv eye_frame [] trials = Inr trials"
| "trials_loop cv eye_frame (t # ts) trials =
     (let iris_frame = image_processing cv eye_frame t
      in case iris_size iris_frame of
           Inl e \<Rightarrow> Inl e
         | Inr s \<Rightarrow> trials_loop cv eye_frame ts (trials @ [(t, double s)]))"

text \<open>
  The literal \<^verbatim>\<open>0.48\<close> is the double nearest to 48/100, and the key of \<^verbatim>\<open>min\<close> is
  computed in floats: the subtraction rounds, \<^verbatim>\<open>abs\<close> is exact.
\<close>

definition average_iris_size :: real where
  "average_iris_size = double (48 / 100)"

definition find_best_threshold :: "cv2 \<Rightarrow> image \<Rightarrow> error + int" where
  "find_best_threshold cv eye_frame =
     (case trials_loop cv eye_frame (py_range 5 100 5) [] of
        Inl e \<Rightarrow> Inl e
      | Inr trials \<Rightarrow>
          (case py_min (\<lambda>p. \<bar>double (snd p - average_iris_size)\<bar>) trials of
             Inl e \<Rightarrow> Inl e
           | Inr (best_threshold, iris_size') \<Rightarrow> Inr best_threshold))"

text \<open>
  \<^verbatim>\<open>Calibration.evaluate\<close>: the lists are changed only after
  \<^verbatim>\<open>find_best_threshold\<close> has returned, so an exception leaves the calibration as it was.
\<close>

definition evaluate :: "cv2 \<Rightarrow> calibration \<Rightarrow> image \<Rightarrow> int \<Rightarrow> error + calibration" where
  "evaluate cv cal eye_frame side =
     (case find_best_threshold cv eye_frame of
        Inl e \<Rightarrow> Inl e
      | Inr threshold' \<Rightarrow>
          Inr (if side = 0 then cal\<lparr>thresholds_left := thresholds_left cal @ [threshold']\<rparr>
               else if side = 1 then cal\<lparr>thresholds_right := thresholds_right cal @ [threshold']\<rparr>
               else cal))"


section \<open>pupil.py: the Pupil class\<close>

record pupil =
  iris_frame :: "image option"
  pupil_threshold :: int
  pupil_x :: "int option"
  pupil_y :: "int option"

text \<open>
  \<^verbatim>\<open>Pupil.detect_iris\<close>. \<^verbatim>\<open>sorted\<close> is stable, as \<open>sort_key\<close> is. The \<^verbatim>\<open>try\<close> block
  catches IndexError (from \<^verbatim>\<open>contours[-2]\<close>) and ZeroDivisionError (from either
  division); whatever was assigned before the exception stays assigned.
\<close>

definition detect_iris :: "cv2 \<Rightarrow> pupil \<Rightarrow> image \<Rightarrow> pupil" where
  "detect_iris cv self eye_frame =
     (let self = self\<lparr>iris_frame := Some (image_processing cv eye_frame (pupil_threshold self))\<rparr>;
          contours = findContours cv (image_processing cv eye_frame (pupil_threshold self));
          contours = sort_key (contourArea cv) contours
      in case py_index contours (-2) of
           Inl e \<Rightarrow> self
         | Inr c \<Rightarrow>
             (let moments = cv_moments cv c
              in case truediv (m10 moments) (m00 moments) of
                   Inl e \<Rightarrow> self
                 | Inr qx \<Rightarrow>
                     (let self = self\<lparr>pupil_x := Some (py_int qx)\<rparr>
                      in case truediv (m01 moments) (m00 moments) of
                           Inl e \<Rightarrow> self
                         | Inr qy \<Rightarrow> self\<lparr>pupil_y := Some (py_int qy)\<rparr>)))"

text \<open>\<^verbatim>\<open>Pupil.__init__\<close>.\<close>

definition Pupil_init :: "cv2 \<Rightarrow> image \<Rightarrow> int \<Rightarrow> pupil" where
  "Pupil_init cv eye_frame threshold' =
     detect_iris cv
       \<lparr>iris_frame = None, pupil_threshold = threshold', pupil_x = None, pupil_y = None\<rparr>
       eye_frame"

section \<open>eye.py\<close>

text \<open>The landmarks of one face: \<^verbatim>\<open>landmarks.part(i)\<close> as the point \<open>(x, y)\<close>.\<close>

type_synonym landmarks = "nat \<Rightarrow> int \<times> int"

definition LEFT_EYE_POINTS :: "nat list" where
  "LEFT_EYE_POINTS = [36, 37, 38, 39, 40, 41]"

definition RIGHT_EYE_POINTS :: "nat list" where
  "RIGHT_EYE_POINTS = [42, 43, 44, 45, 46, 47]"

text \<open>
  An Eye built for side 0 or 1. \<open>eye_blinking\<close> is \<^verbatim>\<open>None\<close> when the aperture has height
  zero; the pupil's coordinates are \<^verbatim>\<open>None\<close> when no centroid was found.
\<close>

record eye =
  eye_frame :: image
  eye_origin :: "int \<times> int"
  eye_center :: "real \<times> real"
  eye_pupil :: pupil
  eye_landmark_points :: "(int \<times> int) list"
  eye_blinking :: "real option"

definition Eye_middle_point :: "int \<times> int \<Rightarrow> int \<times> int \<Rightarrow> int \<times> int" where
  "Eye_middle_point p1 p2 =
     (py_int (real_of_int (fst p1 + fst p2) / 2), py_int (real_of_int (snd p1 + snd p2) / 2))"

text \<open>\<^verbatim>\<open>np.min\<close> and \<^verbatim>\<open>np.max\<close> of a one-dimensional array; an empty array raises.\<close>

fun np_min :: "int list \<Rightarrow> error + int" where
  "np_min [] = Inl ValueError"
| "np_min (v # vs) = Inr (fold min vs v)"

fun np_max :: "int list \<Rightarrow> error + int" where
  "np_max [] = Inl ValueError"
| "np_max (v # vs) = Inr (fold max vs v)"

text \<open>
  \<^verbatim>\<open>Eye._isolate\<close>, returning what it assigns: the cropped frame, the origin, the center and
  the landmark points.
\<close>

definition Eye_isolate ::
  "cv2 \<Rightarrow> image \<Rightarrow> landmarks \<Rightarrow> nat list
     \<Rightarrow> error + (image \<times> (int \<times> int) \<times> (real \<times> real) \<times> (int \<times> int) list)" where
  "Eye_isolate cv frame landmarks points =
     (let region = map landmarks points;
          (height, width) = shape frame;
          black_frame = np_full (height, width) 0;
          msk = np_full (height, width) 255;
          msk = fillPoly cv msk region 0;
          eye = bitwise_not black_frame frame msk;
          margin = 5
      in case np_min (map fst region) of Inl e \<Rightarrow> Inl e | Inr lo_x \<Rightarrow>
         (case np_max (map fst region) of Inl e \<Rightarrow> Inl e | Inr hi_x \<Rightarrow>
         (case np_min (map snd region) of Inl e \<Rightarrow> Inl e | Inr lo_y \<Rightarrow>
         (case np_max (map snd region) of Inl e \<Rightarrow> Inl e | Inr hi_y \<Rightarrow>
            (let min_x = lo_x - margin; max_x = hi_x + margin;
                 min_y = lo_y - margin; max_y = hi_y + margin;
                 cropped = np_slice eye min_y max_y min_x max_x;
                 origin = (min_x, min_y);
                 (height, width) = shape cropped;
                 center = (real width / 2, real height / 2)
             in Inr (cropped, origin, center, region))))))"

definition hypot :: "real \<Rightarrow> real \<Rightarrow> real" where
  "hypot a b = sqrt (a\<^sup>2 + b\<^sup>2)"

text \<open>
  \<^verbatim>\<open>Eye._blinking_ratio\<close>; the point lists of the class have six elements, so the indices
  0 to 5 are in range.
\<close>

definition Eye_blinking_ratio :: "landmarks \<Rightarrow> nat list \<Rightarrow> real option" where
  "Eye_blinking_ratio landmarks points =
     (let left = landmarks (points ! 0);
          right = landmarks (points ! 3);
          top = Eye_middle_point (landmarks (points ! 1)) (landmarks (points ! 2));
          bottom = Eye_middle_point (landmarks (points ! 5)) (landmarks (points ! 4));
          eye_width = hypot (real_of_int (fst left - fst right)) (real_of_int (snd left - snd right));
          eye_height = hypot (real_of_int (fst top - fst bottom)) (real_of_int (snd top - snd bottom))
      in case truediv eye_width eye_height of
           Inl e \<Rightarrow> None
         | Inr ratio \<Rightarrow> Some ratio)"

text \<open>
  The body of \<^verbatim>\<open>Eye._analyze\<close> once the points are chosen. The calibration object is shared
  and mutated in place, so the result carries it also when an exception leaves the method.
  For side 0 or 1 \<^verbatim>\<open>threshold\<close> returns a number; \<^verbatim>\<open>None\<close> would make the binarization
  raise.
\<close>

definition Eye_build ::
  "cv2 \<Rightarrow> image \<Rightarrow> landmarks \<Rightarrow> nat list \<Rightarrow> int \<Rightarrow> calibration \<Rightarrow> calibration \<times> (error + eye)" where
  "Eye_build cv original_frame landmarks points side cal =
     (let blinking = Eye_blinking_ratio landmarks points
      in case Eye_isolate cv original_frame landmarks points of
           Inl e \<Rightarrow> (cal, Inl e)
         | Inr (frame, origin, center, region) \<Rightarrow>
             (case (if \<not> is_complete cal then evaluate cv cal frame side else Inr cal) of
                Inl e \<Rightarrow> (cal, Inl e)
              | Inr cal' \<Rightarrow>
                  (case threshold cal' side of
                     Inl e \<Rightarrow> (cal', Inl e)
                   | Inr None \<Rightarrow> (cal', Inl TypeError)
                   | Inr (Some threshold') \<Rightarrow>
                       (cal', Inr \<lparr>eye_frame = frame, eye_origin = origin, eye_center = center,
                                  eye_pupil = Pupil_init cv frame threshold',
                                  eye_landmark_points = region, eye_blinking = blinking\<rparr>))))"

text \<open>
  \<^verbatim>\<open>Eye.__init__\<close> with \<^verbatim>\<open>Eye._analyze\<close>. For a side other than 0 and 1 the method returns
  at once and the object keeps \<^verbatim>\<open>pupil = None\<close>: every query of GazeTracking then treats it
  as it treats an absent eye, and the result here is \<open>None\<close>.
\<close>

definition Eye_init ::
  "cv2 \<Rightarrow> image \<Rightarrow> landmarks \<Rightarrow> int \<Rightarrow> calibration \<Rightarrow> calibration \<times> (error + eye option)" where
  "Eye_init cv original_frame landmarks side cal =
     (if side = 0 then
        map_prod id (map_sum id Some) (Eye_build cv original_frame landmarks LEFT_EYE_POINTS side cal)
      else if side = 1 then
        map_prod id (map_sum id Some) (Eye_build cv original_frame landmarks RIGHT_EYE_POINTS side cal)
      else (cal, Inr None))"

section \<open>gaze_tracking.py\<close>

type_synonym rectangle = "int \<times> int \<times> int \<times> int"

text \<open>The face detector and the landmark predictor of dlib are parameters of the model.\<close>

record dlib =
  get_frontal_face_detector :: "image \<Rightarrow> rectangle list"
  shape_predictor :: "image \<Rightarrow> rectangle \<Rightarrow> landmarks"

record gaze =
  gaze_frame :: "image option"
  eye_left :: "eye option"
  eye_right :: "eye option"
  gaze_calibration :: calibration
  face_detector :: "image \<Rightarrow> rectangle list"
  predictor :: "image \<Rightarrow> rectangle \<Rightarrow> landmarks"

text \<open>\<^verbatim>\<open>GazeTracking.__init__\<close>.\<close>

definition GazeTracking_init :: "dlib \<Rightarrow> gaze" where
  "GazeTracking_init dl =
     \<lparr>gaze_frame = None, eye_left = None, eye_right = None,
      gaze_calibration = Calibration_init,
      face_detector = get_frontal_face_detector dl,
      predictor = shape_predictor dl\<rparr>"

text \<open>
  The property \<^verbatim>\<open>pupils_located\<close>: any exception in the four conversions (an eye that is
  \<^verbatim>\<open>None\<close>, a coordinate that is \<^verbatim>\<open>None\<close>) gives \<^verbatim>\<open>False\<close>.
\<close>

definition pupils_located :: "gaze \<Rightarrow> bool" where
  "pupils_located g =
     (case (eye_left g, eye_right g) of
        (Some l, Some r) \<Rightarrow>
           pupil_x (eye_pupil l) \<noteq> None \<and> pupil_y (eye_pupil l) \<noteq> None \<and>
           pupil_x (eye_pupil r) \<noteq> None \<and> pupil_y (eye_pupil r) \<noteq> None
      | _ \<Rightarrow> False)"

text \<open>
  The \<^verbatim>\<open>except IndexError\<close> clause of \<^verbatim>\<open>GazeTracking._analyze\<close>: an IndexError sets both
  eyes to \<^verbatim>\<open>None\<close> and the method returns; any other exception leaves the method.
\<close>

definition except_IndexError :: "error \<Rightarrow> gaze \<Rightarrow> gaze \<times> (error + unit)" where
  "except_IndexError e g =
     (if e = IndexError then (g\<lparr>eye_left := None, eye_right := None\<rparr>, Inr ())
      else (g, Inl e))"

text \<open>
  \<^verbatim>\<open>GazeTracking._analyze\<close>. The calibration is the one object both eyes receive; what the
  left eye appended is there when the right eye is built, and stays when the right eye
  raises. \<open>eye_left\<close> is assigned before the right eye is built.
\<close>

definition GazeTracking_analyze :: "cv2 \<Rightarrow> gaze \<Rightarrow> gaze \<times> (error + unit)" where
  "GazeTracking_analyze cv g =
     (case gaze_frame g of
        None \<Rightarrow> (g, Inl CvError)
      | Some colour_frame \<Rightarrow>
          (let frame = cvtColor cv colour_frame;
               faces = face_detector g frame
           in case py_index faces 0 of
                Inl e \<Rightarrow> except_IndexError e g
              | Inr face \<Rightarrow>
                  (let landmarks = predictor g frame face
                   in case Eye_init cv frame landmarks 0 (gaze_calibration g) of
                        (cal1, Inl e) \<Rightarrow> except_IndexError e (g\<lparr>gaze_calibration := cal1\<rparr>)
                      | (cal1, Inr el) \<Rightarrow>
                          (let g1 = g\<lparr>gaze_calibration := cal1, eye_left := el\<rparr>
                           in case Eye_init cv frame landmarks 1 cal1 of
                                (cal2, Inl e) \<Rightarrow> except_IndexError e (g1\<lparr>gaze_calibration := cal2\<rparr>)
                              | (cal2, Inr er) \<Rightarrow>
                                  (g1\<lparr>gaze_calibration := cal2, eye_right := er\<rparr>, Inr ())))))"

definition refresh :: "cv2 \<Rightarrow> image \<Rightarrow> gaze \<Rightarrow> gaze \<times> (error + unit)" where
  "refresh cv frame g = GazeTracking_analyze cv (g\<lparr>gaze_frame := Some frame\<rparr>)"

definition pupil_left_coords :: "gaze \<Rightarrow> (int \<times> int) option" where
  "pupil_left_coords g =
     (if pupils_located g then
        (case eye_left g of
           None \<Rightarrow> None
         | Some l \<Rightarrow>
             (case (pupil_x (eye_pupil l), pupil_y (eye_pupil l)) of
                (Some px, Some py) \<Rightarrow> Some (fst (eye_origin l) + px, snd (eye_origin l) + py)
              | _ \<Rightarrow> None))
      else None)"

definition pupil_right_coords :: "gaze \<Rightarrow> (int \<times> int) option" where
  "pupil_right_coords g =
     (if pupils_located g then
        (case eye_right g of
           None \<Rightarrow> None
         | Some r \<Rightarrow>
             (case (pupil_x (eye_pupil r), pupil_y (eye_pupil r)) of
                (Some px, Some py) \<Rightarrow> Some (fst (eye_origin r) + px, snd (eye_origin r) + py)
              | _ \<Rightarrow> None))
      else None)"

text \<open>
  \<^verbatim>\<open>horizontal_ratio\<close> and \<^verbatim>\<open>vertical_ratio\<close>: the divisions are unguarded. An operand that
  is \<^verbatim>\<open>None\<close> raises TypeError (excluded by \<open>pupils_located\<close>).
\<close>

definition horizontal_ratio :: "gaze \<Rightarrow> error + real option" where
  "horizontal_ratio g =
     (if pupils_located g then
        (case (eye_left g, eye_right g) of
           (Some l, Some r) \<Rightarrow>
             (case (pupil_x (eye_pupil l), pupil_x (eye_pupil r)) of
                (Some xl, Some xr) \<Rightarrow>
                  (case truediv (real_of_int xl) (fst (eye_center l) * 2 - 10) of
                     Inl e \<Rightarrow> Inl e
                   | Inr pupil_left \<Rightarrow>
                       (case truediv (real_of_int xr) (fst (eye_center r) * 2 - 10) of
                          Inl e \<Rightarrow> Inl e
                        | Inr pupil_right \<Rightarrow> Inr (Some ((pupil_left + pupil_right) / 2))))
              | _ \<Rightarrow> Inl TypeError)
         | _ \<Rightarrow> Inl TypeError)
      else Inr None)"

definition vertical_ratio :: "gaze \<Rightarrow> error + real option" where
  "vertical_ratio g =
     (if pupils_located g then
        (case (eye_left g, eye_right g) of
           (Some l, Some r) \<Rightarrow>
             (case (pupil_y (eye_pupil l), pupil_y (eye_pupil r)) of
                (Some yl, Some yr) \<Rightarrow>
                  (case truediv (real_of_int yl) (snd (eye_center l) * 2 - 10) of
                     Inl e \<Rightarrow> Inl e
                   | Inr pupil_left \<Rightarrow>
                       (case truediv (real_of_int yr) (snd (eye_center r) * 2 - 10) of
                          Inl e \<Rightarrow> Inl e
                        | Inr pupil_right \<Rightarrow> Inr (Some ((pupil_left + pupil_right) / 2))))
              | _ \<Rightarrow> Inl TypeError)
         | _ \<Rightarrow> Inl TypeError)
      else Inr None)"

text \<open>
  \<^verbatim>\<open>is_right\<close>, \<^verbatim>\<open>is_left\<close>, \<^verbatim>\<open>is_center\<close>, \<^verbatim>\<open>is_blinking\<close>: each returns \<^verbatim>\<open>None\<close> (falls off
  its \<^verbatim>\<open>if\<close>) when the pupils are not located. Comparing or adding \<^verbatim>\<open>None\<close> raises
  TypeError.
\<close>

definition is_right :: "gaze \<Rightarrow> error + bool option" where
  "is_right g =
     (if pupils_located g then
        (case horizontal_ratio g of
           Inl e \<Rightarrow> Inl e
         | Inr None \<Rightarrow> Inl TypeError
         | Inr (Some ratio) \<Rightarrow> Inr (Some (ratio \<le> 65 / 100)))
      else Inr None)"

definition is_left :: "gaze \<Rightarrow> error + bool option" where
  "is_left g =
     (if pupils_located g then
        (case horizontal_ratio g of
           Inl e \<Rightarrow> Inl e
         | Inr None \<Rightarrow> Inl TypeError
         | Inr (Some ratio) \<Rightarrow> Inr (Some (ratio \<ge> 65 / 100)))
      else Inr None)"

text \<open>\<^verbatim>\<open>a and b\<close> evaluates \<open>b\<close> only when \<open>a\<close> is true.\<close>

definition is_center :: "gaze \<Rightarrow> error + bool option" where
  "is_center g =
     (if pupils_located g then
        (case is_right g of
           Inl e \<Rightarrow> Inl e
         | Inr right \<Rightarrow>
             (if right \<noteq> Some True then
                (case is_left g of
                   Inl e \<Rightarrow> Inl e
                 | Inr left \<Rightarrow> Inr (Some (left \<noteq> Some True)))
              else Inr (Some False)))
      else Inr None)"

definition is_blinking :: "gaze \<Rightarrow> error + bool option" where
  "is_blinking g =
     (if pupils_located g then
        (case (eye_left g, eye_right g) of
           (Some l, Some r) \<Rightarrow>
             (case (eye_blinking l, eye_blinking r) of
                (Some bl, Some br) \<Rightarrow>
                  (let blinking_ratio = (bl + br) / 2
                   in Inr (Some (blinking_ratio > 38 / 10)))
              | _ \<Rightarrow> Inl TypeError)
         | _ \<Rightarrow> Inl TypeError)
      else Inr None)"


section \<open>Sessions\<close>

text \<open>
  A session is one GazeTracking object refreshed with one frame after the other.
  \<open>refresh_all\<close> stops at the first call that raises, as a caller that does not catch the
  exception does. \<open>session_after\<close> is the object's state when the caller goes on with the
  next frame whatever the call did.
\<close>

fun refresh_all :: "cv2 \<Rightarrow> image list \<Rightarrow> gaze \<Rightarrow> error + gaze" where
  "refresh_all cv [] g = Inr g"
| "refresh_all cv (f # fs) g =
     (case refresh cv f g of
        (g', Inl e) \<Rightarrow> Inl e
      | (g', Inr u) \<Rightarrow> refresh_all cv fs g')"

definition session_after :: "cv2 \<Rightarrow> image list \<Rightarrow> gaze \<Rightarrow> gaze" where
  "session_after cv fs g = foldl (\<lambda>g f. fst (refresh cv f g)) g fs"

section \<open>Notions of the specification\<close>

text \<open>
  The contract of the smoothing and erosion primitives that the claims about frame sizes
  rely on: the result has the shape of the argument.
\<close>

definition shape_preserving :: "cv2 \<Rightarrow> bool" where
  "shape_preserving cv =
     ((\<forall>img d sc ss. shape (bilateralFilter cv img d sc ss) = shape img) \<and>
      (\<forall>img k n. shape (erode cv img k n) = shape img))"

text \<open>
  The second-largest element of a list under a measure, in the specification's words: one
  element is at least as large, all the others are at most as large.
\<close>

definition second_largest :: "('a \<Rightarrow> real) \<Rightarrow> 'a \<Rightarrow> 'a list \<Rightarrow> bool" where
  "second_largest area c cs =
     (\<exists>largest rest. mset cs = add_mset largest (add_mset c (mset rest)) \<and>
        area c \<le> area largest \<and> (\<forall>r\<in>set rest. area r \<le> area c))"

section \<open>Concrete inputs\<close>

text \<open>
  An instance of the image library for evaluating the model: smoothing and erosion return
  their argument, the polygon fill paints the whole mask, and every image has the same
  two contours, measured as point sets.
\<close>

definition demo_contours :: "contour list" where
  "demo_contours = [[(0, 0), (15, 0), (15, 11), (0, 11), (7, 5)], [(1, 2), (2, 3)]]"

definition demo_cv :: cv2 where
  "demo_cv =
     \<lparr>bilateralFilter = (\<lambda>img d sc ss. img),
      erode = (\<lambda>img k n. img),
      fillPoly = (\<lambda>img pts c. img\<lparr>pixel := (\<lambda>i j. c)\<rparr>),
      findContours = (\<lambda>img. demo_contours),
      contourArea = (\<lambda>c. real (length c)),
      cv_moments = (\<lambda>c. \<lparr>m00 = real (length c),
                            m10 = real_of_int (sum_list (map fst c)),
                            m01 = real_of_int (sum_list (map snd c))\<rparr>),
      cvtColor = (\<lambda>img. img)\<rparr>"

text \<open>An eye frame of 12 rows and 13 columns; the trimmed region has 2 rows and 3 columns.\<close>

definition demo_eye_frame :: image where
  "demo_eye_frame = \<lparr>nrows = 12, ncols = 13, pixel = (\<lambda>i j. 5 * (i + j))\<rparr>"

text \<open>
  An eye frame of 11 rows and 235 columns. Its trimmed region is one row of 225 pixels:
  55 of value 0, then 106 of value 50, then 64 of value 255.
\<close>

definition tie_frame :: image where
  "tie_frame =
     \<lparr>nrows = 11, ncols = 235,
      pixel = (\<lambda>i j. if j < 60 then 0 else if j < 166 then 50 else 255)\<rparr>"

text \<open>An eye frame of 10 rows: the trimmed region has no row.\<close>

definition flat_eye_frame :: image where
  "flat_eye_frame = \<lparr>nrows = 10, ncols = 16, pixel = (\<lambda>i j. 2 * j)\<rparr>"

text \<open>A calibration whose left side has 20 samples and whose right side has none.\<close>

definition left_full :: calibration where
  "left_full = \<lparr>nb_frames = 20, thresholds_left = replicate 20 5, thresholds_right = []\<rparr>"

text \<open>
  Landmarks of an open pair of eyes (each eye 6 pixels wide and 2 high), and landmarks
  whose right eye is closed flat: its six points lie on one row.
\<close>

definition open_landmarks :: landmarks where
  "open_landmarks i =
     (if i = 36 then (20, 21) else if i = 37 then (22, 20) else if i = 38 then (24, 20)
      else if i = 39 then (26, 21) else if i = 40 then (24, 22) else if i = 41 then (22, 22)
      else if i = 42 then (40, 21) else if i = 43 then (42, 20) else if i = 44 then (44, 20)
      else if i = 45 then (46, 21) else if i = 46 then (44, 22) else if i = 47 then (42, 22)
      else (0, 0))"

definition flat_right_landmarks :: landmarks where
  "flat_right_landmarks i =
     (if 42 \<le> i \<and> i \<le> 47 then (fst (open_landmarks i), 21) else open_landmarks i)"

text \<open>
  Landmarks whose left eye is one pixel from closed: the midpoints of the upper and of the
  lower lid pair coincide after truncation.
\<close>

definition jitter_landmarks :: landmarks where
  "jitter_landmarks i =
     (if i = 37 then (22, 20) else if i = 38 then (24, 21)
      else if i = 40 then (24, 20) else if i = 41 then (22, 21)
      else open_landmarks i)"

text \<open>
  Two frames of 40 rows and 60 columns and a landmark detector that finds one face in
  each: the open eyes in a frame whose first pixel is 0, the flat right eye otherwise.
\<close>

definition open_frame :: image where
  "open_frame = \<lparr>nrows = 40, ncols = 60, pixel = (\<lambda>i j. 2 * j)\<rparr>"

definition flat_frame :: image where
  "flat_frame = \<lparr>nrows = 40, ncols = 60, pixel = (\<lambda>i j. if i = 0 \<and> j = 0 then 1 else 2 * j)\<rparr>"

definition demo_dlib :: dlib where
  "demo_dlib =
     \<lparr>get_frontal_face_detector = (\<lambda>img. [(0, 0, 60, 40)]),
      shape_predictor = (\<lambda>img face. if pixel img 0 0 = 0 then open_landmarks
                                      else flat_right_landmarks)\<rparr>"

text \<open>
  A session state in which both pupils are located, each exactly at the center of an eye
  frame of 60 columns and 30 rows.
\<close>

definition centered_eye :: "int \<times> int \<Rightarrow> real option \<Rightarrow> eye" where
  "centered_eye origin blinking =
     \<lparr>eye_frame = \<lparr>nrows = 30, ncols = 60, pixel = (\<lambda>i j. 255)\<rparr>,
      eye_origin = origin, eye_center = (30, 15),
      eye_pupil = \<lparr>iris_frame = None, pupil_threshold = 50, pupil_x = Some 30, pupil_y = Some 15\<rparr>,
      eye_landmark_points = [], eye_blinking = blinking\<rparr>"

definition centered_gaze :: gaze where
  "centered_gaze =
     (GazeTracking_init demo_dlib)
       \<lparr>eye_left := Some (centered_eye (100, 80) (Some 3)),
        eye_right := Some (centered_eye (200, 80) (Some 3))\<rparr>"

text \<open>
  The same state with the left blink ratio computed from the landmarks whose left aperture
  has height zero.
\<close>

definition jitter_gaze :: gaze where
  "jitter_gaze =
     (GazeTracking_init demo_dlib)
       \<lparr>eye_left := Some (centered_eye (100, 80) (Eye_blinking_ratio jitter_landmarks LEFT_EYE_POINTS)),
        eye_right := Some (centered_eye (200, 80) (Some 3))\<rparr>"


text \<open>A calibration whose two sides have 20 samples each, and a session that holds it.\<close>

definition both_full :: calibration where
  "both_full = \<lparr>nb_frames = 20, thresholds_left = replicate 20 45, thresholds_right = replicate 20 85\<rparr>"

definition calibrated_gaze :: gaze where
  "calibrated_gaze = (GazeTracking_init demo_dlib)\<lparr>gaze_calibration := both_full\<rparr>"

section \<open>Lemmas about the rounding to a double\<close>

lemma binade_unique:
  assumes "x \<noteq> 0" "2 powr of_int e \<le> \<bar>x\<bar>" "\<bar>x\<bar> < 2 powr (of_int e + 1)"
  shows "binade x = e"
  unfolding binade_def using assms
  by (subst floor_log_eq_powr_iff) (simp_all add: add.commute)

lemma binade_bounds:
  assumes "x \<noteq> 0"
  shows "2 powr of_int (binade x) \<le> \<bar>x\<bar>" "\<bar>x\<bar> < 2 powr (of_int (binade x) + 1)"
proof -
  have "\<lfloor>log 2 \<bar>x\<bar>\<rfloor> = binade x" by (simp add: binade_def)
  then have "2 powr of_int (binade x) \<le> \<bar>x\<bar> \<and> \<bar>x\<bar> < 2 powr of_int (binade x + 1)"
    using assms by (subst (asm) floor_log_eq_powr_iff) simp_all
  then show "2 powr of_int (binade x) \<le> \<bar>x\<bar>" "\<bar>x\<bar> < 2 powr (of_int (binade x) + 1)"
    by (simp_all add: add.commute)
qed

lemma round_half_even_of_int: "round_half_even (of_int k) = k"
  by (simp add: round_half_even_def)

lemma round_half_even_range:
  "of_int (round_half_even y) \<le> y + 1 / 2" "y - 1 / 2 \<le> of_int (round_half_even y)"
  unfolding round_half_even_def Let_def by (auto; linarith)+

lemma round_half_even_mono:
  assumes "y \<le> z"
  shows "round_half_even y \<le> round_half_even z"
proof -
  have fl: "\<lfloor>y\<rfloor> \<le> \<lfloor>z\<rfloor>" using assms by (rule floor_mono)
  show ?thesis
  proof (cases "\<lfloor>y\<rfloor> = \<lfloor>z\<rfloor>")
    case True
    then show ?thesis using assms
      by (auto simp add: round_half_even_def Let_def)
  next
    case False
    with fl have "\<lfloor>y\<rfloor> + 1 \<le> \<lfloor>z\<rfloor>" by simp
    moreover have "round_half_even y \<le> \<lfloor>y\<rfloor> + 1"
      by (simp add: round_half_even_def Let_def)
    moreover have "\<lfloor>z\<rfloor> \<le> round_half_even z"
      by (simp add: round_half_even_def Let_def)
    ultimately show ?thesis by linarith
  qed
qed

lemma round_half_even_minus: "round_half_even (- y) = - round_half_even y"
proof (cases "y = of_int \<lfloor>y\<rfloor>")
  case True
  then obtain k where "y = of_int k" ..
  then have "- y = of_int (- k)" by simp
  then show ?thesis using \<open>y = of_int k\<close> by (simp only: round_half_even_of_int)
next
  case False
  have fl: "\<lfloor>- y\<rfloor> = - \<lfloor>y\<rfloor> - 1"
    using False by (simp add: floor_minus ceiling_altdef)
  have lt: "of_int \<lfloor>y\<rfloor> < y" using False by (metis floor_less_cancel less_eq_real_def of_int_floor_le order_less_irrefl)
  show ?thesis
    unfolding round_half_even_def Let_def fl using lt
    by (auto simp add: algebra_simps)
qed


lemma double_zero: "double 0 = 0"
  by (simp add: double_def)

lemma binade_minus: "binade (- x) = binade x"
  by (simp add: binade_def)

lemma double_minus: "double (- x) = - double x"
  by (simp add: double_def binade_minus round_half_even_minus)

lemma double_pos_bounds:
  assumes "0 < x"
  shows "2 powr of_int (binade x) \<le> double x" "double x \<le> 2 powr (of_int (binade x) + 1)"
proof -
  let ?e = "of_int (binade x) :: real"
  let ?u = "2 powr (?e - 52) :: real"
  have u: "0 < ?u" by simp
  have x: "x \<noteq> 0" using assms by simp
  have lo: "2 powr ?e \<le> x" and hi: "x < 2 powr (?e + 1)"
    using binade_bounds [OF x] assms by simp_all
  have e52: "2 powr ?e = 2 ^ 52 * ?u" and e53: "2 powr (?e + 1) = 2 ^ 53 * ?u"
    by (simp_all add: powr_diff powr_add)
  have "2 ^ 52 \<le> x / ?u" using lo u by (simp add: e52 pos_le_divide_eq)
  then have "round_half_even (2 ^ 52) \<le> round_half_even (x / ?u)"
    by (rule round_half_even_mono)
  moreover have "round_half_even (2 ^ 52) = 2 ^ 52"
    using round_half_even_of_int [of "2 ^ 52"] by simp
  ultimately have a: "(2 ^ 52 :: real) \<le> of_int (round_half_even (x / ?u))"
    by (metis of_int_le_iff of_int_numeral of_int_power)
  have "x / ?u \<le> 2 ^ 53" using hi u by (simp add: e53 pos_divide_le_eq)
  then have "round_half_even (x / ?u) \<le> round_half_even (2 ^ 53)"
    by (rule round_half_even_mono)
  moreover have "round_half_even (2 ^ 53) = 2 ^ 53"
    using round_half_even_of_int [of "2 ^ 53"] by simp
  ultimately have b: "of_int (round_half_even (x / ?u)) \<le> (2 ^ 53 :: real)"
    by (metis of_int_le_iff of_int_numeral of_int_power)
  have d: "double x = of_int (round_half_even (x / ?u)) * ?u" using x by (simp add: double_def)
  show "2 powr ?e \<le> double x"
    unfolding d e52 using a u by (intro mult_right_mono) simp_all
  show "double x \<le> 2 powr (?e + 1)"
    unfolding d e53 using b u by (intro mult_right_mono) simp_all
qed

lemma double_pos: "0 < x \<Longrightarrow> 0 < double x"
  using double_pos_bounds(1) [of x] by (smt (verit) powr_gt_zero)

lemma double_mono_pos:
  assumes "0 < x" "x \<le> y"
  shows "double x \<le> double y"
proof -
  have y: "0 < y" using assms by simp
  have "log 2 x \<le> log 2 y" using assms by simp
  then have le: "binade x \<le> binade y"
    using assms y by (simp add: binade_def floor_mono)
  show ?thesis
  proof (cases "binade x = binade y")
    case True
    let ?u = "2 powr (of_int (binade y) - 52) :: real"
    have "x / ?u \<le> y / ?u" using assms by (simp add: divide_right_mono)
    then have "round_half_even (x / ?u) \<le> round_half_even (y / ?u)"
      by (rule round_half_even_mono)
    then have "of_int (round_half_even (x / ?u)) * ?u \<le> of_int (round_half_even (y / ?u)) * ?u"
      by (intro mult_right_mono) simp_all
    then show ?thesis using assms y True by (simp add: double_def)
  next
    case False
    with le have "binade x + 1 \<le> binade y" by simp
    then have "(of_int (binade x) + 1 :: real) \<le> of_int (binade y)"
      by (metis of_int_1 of_int_add of_int_le_iff)
    then have "(2::real) powr (of_int (binade x) + 1) \<le> 2 powr of_int (binade y)"
      by simp
    with double_pos_bounds(2) [OF assms(1)] double_pos_bounds(1) [OF y]
    show ?thesis by linarith
  qed
qed

lemma double_mono:
  assumes "x \<le> y"
  shows "double x \<le> double y"
proof -
  consider "0 < x" | "x \<le> 0" "0 < y" | "y < 0" | "x < 0" "y = 0" | "x = 0" "y = 0"
    using assms by linarith
  then show ?thesis
  proof cases
    case 1
    then show ?thesis using assms by (rule double_mono_pos)
  next
    case 2
    have "double x \<le> 0"
    proof (cases "x = 0")
      case True then show ?thesis by (simp add: double_zero)
    next
      case False
      with 2 have "0 < - x" by simp
      then have "0 < double (- x)" by (rule double_pos)
      then show ?thesis by (simp add: double_minus)
    qed
    moreover have "0 < double y" using 2 by (simp add: double_pos)
    ultimately show ?thesis by simp
  next
    case 3
    then have "0 < - y" "- y \<le> - x" using assms by simp_all
    then have "double (- y) \<le> double (- x)" by (rule double_mono_pos)
    then show ?thesis by (simp add: double_minus)
  next
    case 4
    then have "0 < double (- x)" by (simp add: double_pos)
    then show ?thesis using 4 by (simp add: double_minus double_zero)
  next
    case 5
    then show ?thesis by simp
  qed
qed


lemma double_scaled:
  assumes "2 ^ 52 \<le> \<bar>x\<bar> * 2 ^ n" "\<bar>x\<bar> * 2 ^ n < 2 ^ 53"
  shows "double x = of_int (round_half_even (x * 2 ^ n)) / 2 ^ n"
proof -
  have x: "x \<noteq> 0" using assms(1) by auto
  have p: "(2::real) powr (52 - real n) = 2 ^ 52 / 2 ^ n"
    by (simp add: powr_diff powr_realpow)
  have q: "(2::real) powr (53 - real n) = 2 ^ 53 / 2 ^ n"
    by (simp add: powr_diff powr_realpow)
  have "binade x = 52 - int n"
  proof (rule binade_unique [OF x])
    show "2 powr real_of_int (52 - int n) \<le> \<bar>x\<bar>"
      using assms(1) by (simp add: p pos_divide_le_eq)
    show "\<bar>x\<bar> < 2 powr (real_of_int (52 - int n) + 1)"
      using assms(2) by (simp add: q pos_less_divide_eq)
  qed
  then have "2 powr (of_int (binade x) - 52) = (1 / 2 ^ n :: real)"
    by (simp add: powr_minus powr_realpow inverse_eq_divide)
  then show ?thesis using x by (simp add: double_def)
qed

lemma round_half_even_numeral: "round_half_even (numeral k) = numeral k"
  using round_half_even_of_int [of "numeral k"] by simp

lemma double_exact:
  assumes "2 ^ 52 \<le> \<bar>m\<bar>" "\<bar>m\<bar> < 2 ^ 53"
  shows "double (of_int m / 2 ^ n) = of_int m / 2 ^ n"
proof -
  have a: "(2 ^ 52 :: real) \<le> of_int \<bar>m\<bar>" using assms(1)
    by (metis of_int_le_iff of_int_numeral of_int_power)
  have b: "of_int \<bar>m\<bar> < (2 ^ 53 :: real)" using assms(2)
    by (metis of_int_less_iff of_int_numeral of_int_power)
  have "double (of_int m / 2 ^ n) = of_int (round_half_even (of_int m / 2 ^ n * 2 ^ n)) / 2 ^ n"
    using a b by (intro double_scaled) (simp_all add: abs_divide)
  then show ?thesis by (simp add: round_half_even_of_int)
qed

lemma double_dyadics:
  "double (1 / 2) = 1 / 2" "double (1 / 4) = 1 / 4" "double (3 / 4) = 3 / 4"
  "double (1 / 16) = 1 / 16" "double (7 / 16) = 7 / 16" "double (- (3 / 16)) = - (3 / 16)"
proof -
  show "double (1 / 2) = 1 / 2" using double_exact [of "2 ^ 52" 53] by simp
  show "double (1 / 4) = 1 / 4" using double_exact [of "2 ^ 52" 54] by simp
  show "double (3 / 4) = 3 / 4" using double_exact [of "3 * 2 ^ 51" 53] by simp
  show "double (1 / 16) = 1 / 16" using double_exact [of "2 ^ 52" 56] by simp
  show "double (7 / 16) = 7 / 16" using double_exact [of "7 * 2 ^ 50" 54] by simp
  show "double (- (3 / 16)) = - (3 / 16)" using double_exact [of "- (3 * 2 ^ 51)" 55] by simp
qed

lemma double_048: "double (48 / 100) = 8646911284551352 / 2 ^ 54"
  by (subst double_scaled [where n = 54]) (simp_all add: round_half_even_def Let_def)

lemma double_11_45: "double (11 / 45) = 8807039271302303 / 2 ^ 55"
  by (subst double_scaled [where n = 55]) (simp_all add: round_half_even_def Let_def)

lemma double_161_225: "double (161 / 225) = 6445151466725776 / 2 ^ 53"
  by (subst double_scaled [where n = 53]) (simp_all add: round_half_even_def Let_def)

section \<open>Lemmas about the calibration\<close>

lemma py_range_candidates:
  "py_range 5 100 5 = [5, 10, 15, 20, 25, 30, 35, 40, 45, 50, 55, 60, 65, 70, 75, 80, 85, 90, 95]"
  by (simp add: py_range_def upt_rec)

lemma trim_len: "slice_bound n (-5) - slice_bound n 5 = n - 10"
  by (simp add: slice_bound_def)

lemma shape_np_slice_trim:
  "shape (np_slice img 5 (-5) 5 (-5)) = (nrows img - 10, ncols img - 10)"
  by (simp add: shape_def np_slice_def Let_def trim_len)

lemma countNonZero_le: "countNonZero img \<le> nrows img * ncols img"
proof -
  have inner: "(\<Sum>j\<leftarrow>[0..<ncols img]. if pixel img i j \<noteq> 0 then 1 else 0) \<le> ncols img" for i
    using sum_list_mono [of "[0..<ncols img]" "\<lambda>j. if pixel img i j \<noteq> 0 then 1 else (0::nat)" "\<lambda>j. 1"]
    by (simp add: sum_list_triv)
  have "countNonZero img \<le> (\<Sum>i\<leftarrow>[0..<nrows img]. ncols img)"
    unfolding countNonZero_def by (rule sum_list_mono) (use inner in simp)
  then show ?thesis by (simp add: sum_list_triv)
qed

lemma iris_size_eq:
  "iris_size frame =
     (if nrows frame \<le> 10 \<or> ncols frame \<le> 10 then Inl ZeroDivisionError
      else Inr ((real ((nrows frame - 10) * (ncols frame - 10))
                  - real (countNonZero (np_slice frame 5 (-5) 5 (-5))))
                / real ((nrows frame - 10) * (ncols frame - 10))))"
  using shape_np_slice_trim [of frame]
  by (auto simp add: iris_size_def Let_def truediv_def shape_def)

lemma shape_image_processing:
  "shape_preserving cv \<Longrightarrow> shape (image_processing cv f t) = shape f"
  by (simp add: shape_preserving_def image_processing_def cv_threshold_def shape_def Let_def)


lemma iris_size_small:
  "nrows frame \<le> 10 \<or> ncols frame \<le> 10 \<Longrightarrow> iris_size frame = Inl ZeroDivisionError"
  by (simp add: iris_size_eq)

lemma trials_loop_fails:
  "ts \<noteq> [] \<Longrightarrow> \<forall>t\<in>set ts. iris_size (image_processing cv f t) = Inl e \<Longrightarrow>
   trials_loop cv f ts acc = Inl e"
  by (cases ts) (simp_all add: Let_def)

lemma trials_loop_succeeds:
  "\<forall>t\<in>set ts. iris_size (image_processing cv f t) = Inr (occ t) \<Longrightarrow>
   trials_loop cv f ts acc = Inr (acc @ map (\<lambda>t. (t, double (occ t))) ts)"
  by (induction ts arbitrary: acc) (simp_all add: Let_def)

lemma find_best_threshold_small:
  assumes "shape_preserving cv" "nrows f \<le> 10 \<or> ncols f \<le> 10"
  shows "find_best_threshold cv f = Inl ZeroDivisionError"
proof -
  have "iris_size (image_processing cv f t) = Inl ZeroDivisionError" for t
    using shape_image_processing [OF assms(1), of f t] assms(2)
    by (intro iris_size_small) (simp add: shape_def)
  then have "trials_loop cv f (py_range 5 100 5) [] = Inl ZeroDivisionError"
    by (intro trials_loop_fails) (simp_all add: py_range_candidates)
  then show ?thesis by (simp add: find_best_threshold_def)
qed


lemma foldl_min_split:
  fixes key :: "'a \<Rightarrow> 'k::linorder"
  defines "step \<equiv> (\<lambda>best y. if key y < key best then y else best)"
  shows "\<exists>pre post. b # ys = pre @ foldl step b ys # post \<and>
           (\<forall>z\<in>set pre. key (foldl step b ys) < key z) \<and>
           (\<forall>z\<in>set post. key (foldl step b ys) \<le> key z)"
proof (induction ys rule: rev_induct)
  case Nil
  have "[b] = [] @ b # []" by simp
  then show ?case by (metis empty_iff foldl_Nil list.set(1))
next
  case (snoc y ys)
  then obtain pre post where split: "b # ys = pre @ foldl step b ys # post"
    and pre: "\<forall>z\<in>set pre. key (foldl step b ys) < key z"
    and post: "\<forall>z\<in>set post. key (foldl step b ys) \<le> key z"
    by blast
  let ?m = "foldl step b ys"
  show ?case
  proof (cases "key y < key ?m")
    case True
    then have new: "foldl step b (ys @ [y]) = y" by (simp add: step_def)
    have "b # ys @ [y] = (b # ys) @ y # []" by simp
    moreover have "\<forall>z\<in>set (b # ys). key y < key z"
      using True pre post split
      by (metis Un_iff insert_iff list.set(2) not_le_imp_less order.strict_trans1 order_less_trans set_append leD)
    ultimately show ?thesis unfolding new by (metis empty_iff list.set(1))
  next
    case False
    then have old: "foldl step b (ys @ [y]) = ?m" by (simp add: step_def)
    have "b # ys @ [y] = pre @ ?m # (post @ [y])" using split by simp
    moreover have "\<forall>z\<in>set (post @ [y]). key ?m \<le> key z" using post False by auto
    ultimately show ?thesis unfolding old using pre by blast
  qed
qed

lemma py_min_split:
  assumes "py_min key xs = Inr m"
  shows "\<exists>pre post. xs = pre @ m # post \<and> (\<forall>z\<in>set pre. key m < key z) \<and>
           (\<forall>z\<in>set post. key m \<le> key z)"
proof (cases xs)
  case Nil
  with assms show ?thesis by simp
next
  case (Cons b ys)
  with assms have "m = foldl (\<lambda>best y. if key y < key best then y else best) b ys" by simp
  with foldl_min_split [of b ys key] Cons show ?thesis by simp
qed

lemma py_min_nonempty: "xs \<noteq> [] \<Longrightarrow> \<exists>m. py_min key xs = Inr m"
  by (cases xs) simp_all

lemma py_int_div:
  assumes "0 < b"
  shows "py_int (real_of_int a / real_of_int b) = a sdiv b"
proof (cases "a < 0")
  case False
  then have "0 \<le> real_of_int a / real_of_int b" using assms by simp
  then have "py_int (real_of_int a / real_of_int b) = a div b"
    by (simp add: py_int_def floor_divide_of_int_eq)
  also have "\<dots> = a sdiv b" using False assms
    by (cases "a = 0") (simp_all add: signed_divide_int_def sgn_if)
  finally show ?thesis .
next
  case True
  then have "real_of_int a / real_of_int b < 0" using assms by (simp add: divide_neg_pos)
  then have "py_int (real_of_int a / real_of_int b) = \<lceil>real_of_int a / real_of_int b\<rceil>"
    by (simp add: py_int_def)
  also have "\<dots> = - \<lfloor>real_of_int (- a) / real_of_int b\<rfloor>"
    by (simp add: ceiling_def)
  also have "\<dots> = - ((- a) div b)"
    by (simp only: floor_divide_of_int_eq)
  also have "\<dots> = a sdiv b" using True assms by (simp add: signed_divide_int_def sgn_if)
  finally show ?thesis .
qed

lemma threshold_side:
  "threshold cal side =
     (if side = 0 \<or> side = 1 then
        (let xs = (if side = 0 then thresholds_left cal else thresholds_right cal)
         in if xs = [] then Inl ZeroDivisionError
            else Inr (Some (sum_list xs sdiv int (length xs))))
      else Inr None)"
  using py_int_div [of "int (length (thresholds_left cal))" "sum_list (thresholds_left cal)"]
        py_int_div [of "int (length (thresholds_right cal))" "sum_list (thresholds_right cal)"]
  by (auto simp add: threshold_def truediv_def Let_def)


lemma countNonZero_threshold_antimono:
  assumes "t1 \<le> t2"
  shows "countNonZero (np_slice (cv_threshold g t2 255) 5 (-5) 5 (-5))
           \<le> countNonZero (np_slice (cv_threshold g t1 255) 5 (-5) 5 (-5))"
  unfolding countNonZero_def np_slice_def cv_threshold_def Let_def
  using assms by (auto intro!: sum_list_mono)

lemma iris_size_threshold_mono:
  assumes "t1 \<le> t2"
  shows "rel_sum (=) (\<le>) (iris_size (cv_threshold g t1 255)) (iris_size (cv_threshold g t2 255))"
proof (cases "nrows g \<le> 10 \<or> ncols g \<le> 10")
  case True
  then show ?thesis by (simp add: iris_size_eq cv_threshold_def)
next
  case False
  let ?n = "(nrows g - 10) * (ncols g - 10)"
  let ?c1 = "countNonZero (np_slice (cv_threshold g t1 255) 5 (-5) 5 (-5))"
  let ?c2 = "countNonZero (np_slice (cv_threshold g t2 255) 5 (-5) 5 (-5))"
  have "?c2 \<le> ?c1" by (rule countNonZero_threshold_antimono [OF assms])
  then have "real ?n - real ?c1 \<le> real ?n - real ?c2" by simp
  then have "(real ?n - real ?c1) / real ?n \<le> (real ?n - real ?c2) / real ?n"
    by (rule divide_right_mono) simp
  with False show ?thesis by (simp add: iris_size_eq cv_threshold_def)
qed

lemma iris_size_defined:
  "10 < nrows frame \<Longrightarrow> 10 < ncols frame \<Longrightarrow> \<exists>s. iris_size frame = Inr s"
  by (simp add: iris_size_eq)

section \<open>The claims about the calibration\<close>

lemma evaluate_small:
  assumes "shape_preserving cv" "nrows f \<le> 10 \<or> ncols f \<le> 10"
  shows "evaluate cv cal f side = Inl ZeroDivisionError"
  by (simp add: evaluate_def find_best_threshold_small [OF assms])

text \<open>
  Claim C10. For an eye frame whose height or width is at most 10 pixels, the 5-pixel trim
  of \<^verbatim>\<open>iris_size\<close> leaves a region with zero pixels and the division raises
  ZeroDivisionError: on the frame itself, on the frame processed at any threshold (the
  smoothing and the erosion keep the shape), and hence in \<^verbatim>\<open>find_best_threshold\<close> and in
  \<^verbatim>\<open>evaluate\<close>, which return no value.
\<close>

theorem small_frame_division_by_zero:
  assumes "nrows f \<le> 10 \<or> ncols f \<le> 10" and "shape_preserving cv"
  shows "nrows (np_slice f 5 (-5) 5 (-5)) * ncols (np_slice f 5 (-5) 5 (-5)) = 0
       \<and> iris_size f = Inl ZeroDivisionError
       \<and> iris_size (image_processing cv f t) = Inl ZeroDivisionError
       \<and> find_best_threshold cv f = Inl ZeroDivisionError
       \<and> evaluate cv cal f side = Inl ZeroDivisionError"
proof -
  have "shape (np_slice f 5 (-5) 5 (-5)) = (nrows f - 10, ncols f - 10)"
    by (rule shape_np_slice_trim)
  then have "nrows (np_slice f 5 (-5) 5 (-5)) * ncols (np_slice f 5 (-5) 5 (-5)) = 0"
    using assms(1) by (auto simp add: shape_def)
  moreover have "iris_size f = Inl ZeroDivisionError"
    using assms(1) by (rule iris_size_small)
  moreover have "iris_size (image_processing cv f t) = Inl ZeroDivisionError"
    using shape_image_processing [OF assms(2), of f t] assms(1)
    by (intro iris_size_small) (simp add: shape_def)
  moreover note find_best_threshold_small [OF assms(2) assms(1)]
    evaluate_small [OF assms(2) assms(1)]
  ultimately show ?thesis by simp
qed

lemma shape_preserving_demo: "shape_preserving demo_cv"
  by (simp add: shape_preserving_def demo_cv_def)

theorem small_frame_division_by_zero_witness:
  "(nrows flat_eye_frame \<le> 10 \<or> ncols flat_eye_frame \<le> 10) \<and> shape_preserving demo_cv
   \<and> iris_size flat_eye_frame = Inl ZeroDivisionError
   \<and> find_best_threshold demo_cv flat_eye_frame = Inl ZeroDivisionError
   \<and> evaluate demo_cv Calibration_init flat_eye_frame 1 = Inl ZeroDivisionError"
proof -
  have small: "nrows flat_eye_frame \<le> 10 \<or> ncols flat_eye_frame \<le> 10"
    by (simp add: flat_eye_frame_def)
  show ?thesis
    using small shape_preserving_demo
      small_frame_division_by_zero [OF small shape_preserving_demo, of 5 Calibration_init 1]
    by simp
qed

text \<open>
  Claim C7. For a fixed eye image the occupancy fraction of the processed frame
  (\<^verbatim>\<open>iris_size\<close> after \<^verbatim>\<open>image_processing\<close>) does not decrease when the threshold grows:
  for \<open>t1 \<le> t2\<close> either both fractions are defined and the one at \<open>t1\<close> is at most the
  one at \<open>t2\<close>, or the trimmed region is empty and both calls raise the same exception.
\<close>

theorem occupancy_monotone_in_threshold:
  "t1 \<le> t2 \<Longrightarrow>
   rel_sum (=) (\<le>) (iris_size (image_processing cv img t1)) (iris_size (image_processing cv img t2))"
proof -
  assume "t1 \<le> t2"
  then have "rel_sum (=) (\<le>)
      (iris_size (cv_threshold (erode cv (bilateralFilter cv img 10 15 15) (np_full (3, 3) 1) 3) t1 255))
      (iris_size (cv_threshold (erode cv (bilateralFilter cv img 10 15 15) (np_full (3, 3) 1) 3) t2 255))"
    by (rule iris_size_threshold_mono)
  then show ?thesis by (simp add: image_processing_def Let_def)
qed

lemma demo_occupancy_50: "iris_size (image_processing demo_cv demo_eye_frame 50) = Inr (1 / 6)"
  by (simp add: iris_size_eq image_processing_def demo_cv_def demo_eye_frame_def cv_threshold_def
      countNonZero_def np_slice_def slice_bound_def Let_def upt_rec)

lemma demo_occupancy_55: "iris_size (image_processing demo_cv demo_eye_frame 55) = Inr (1 / 2)"
  by (simp add: iris_size_eq image_processing_def demo_cv_def demo_eye_frame_def cv_threshold_def
      countNonZero_def np_slice_def slice_bound_def Let_def upt_rec)

theorem occupancy_monotone_in_threshold_witness:
  "(50::int) \<le> 55
   \<and> iris_size (image_processing demo_cv demo_eye_frame 50) = Inr (1 / 6)
   \<and> iris_size (image_processing demo_cv demo_eye_frame 55) = Inr (1 / 2)
   \<and> rel_sum (=) (\<le>) (iris_size (image_processing demo_cv demo_eye_frame 50))
        (iris_size (image_processing demo_cv demo_eye_frame 55))"
proof -
  have le: "(50::int) \<le> 55" by simp
  show ?thesis
    using le occupancy_monotone_in_threshold [OF le, of demo_cv demo_eye_frame]
      demo_occupancy_50 demo_occupancy_55
    by simp
qed

text \<open>
  Claim C5. For side 0 or 1, \<^verbatim>\<open>Calibration.threshold\<close> returns the mean of that side's
  samples, divided with truncation towards zero (\<open>sdiv\<close>), when the side has a sample,
  and raises ZeroDivisionError exactly when it has none.
\<close>

theorem threshold_truncated_mean:
  "side = 0 \<or> side = 1 \<Longrightarrow>
   threshold cal side =
     (let xs = (if side = 0 then thresholds_left cal else thresholds_right cal)
      in if xs = [] then Inl ZeroDivisionError
         else Inr (Some (sum_list xs sdiv int (length xs))))"
  by (simp add: threshold_side)

theorem threshold_truncated_mean_witness:
  "((0::int) = 0 \<or> (0::int) = 1)
   \<and> threshold \<lparr>nb_frames = 20, thresholds_left = [5, 10, 20], thresholds_right = []\<rparr> 0
        = Inr (Some 11)
   \<and> ((1::int) = 0 \<or> (1::int) = 1)
   \<and> threshold \<lparr>nb_frames = 20, thresholds_left = [5, 10, 20], thresholds_right = []\<rparr> 1
        = Inl ZeroDivisionError"
  using threshold_truncated_mean
          [of 0 "\<lparr>nb_frames = 20, thresholds_left = [5, 10, 20], thresholds_right = []\<rparr>"]
        threshold_truncated_mean
          [of 1 "\<lparr>nb_frames = 20, thresholds_left = [5, 10, 20], thresholds_right = []\<rparr>"]
  by (simp add: signed_divide_int_def)

section \<open>The threshold search\<close>

lemma candidates_sorted: "sorted_wrt (<) (py_range 5 100 5)"
  by (simp add: py_range_candidates)

lemma py_min_unique:
  assumes pre: "\<forall>z\<in>set pre. key m < key z" and post: "\<forall>z\<in>set post. key m \<le> key z"
  shows "py_min key (pre @ m # post) = Inr m"
proof -
  obtain m' where m': "py_min key (pre @ m # post) = Inr m'"
    using py_min_nonempty [of "pre @ m # post" key] by auto
  from py_min_split [OF m'] obtain pre' post' where
    split: "pre @ m # post = pre' @ m' # post'" and
    pre': "\<forall>z\<in>set pre'. key m' < key z" and post': "\<forall>z\<in>set post'. key m' \<le> key z"
    by blast
  from split consider us where "pre = pre' @ us" "us @ m # post = m' # post'"
    | us where "pre @ us = pre'" "m # post = us @ m' # post'"
    by (auto simp add: append_eq_append_conv2)
  then have "m' = m"
  proof cases
    case 1
    show ?thesis
    proof (cases us)
      case Nil
      with 1 show ?thesis by simp
    next
      case (Cons u us')
      with 1 have "m' \<in> set pre" "m \<in> set post'" by auto
      with pre post' have "key m < key m'" "key m' \<le> key m" by auto
      then show ?thesis by simp
    qed
  next
    case 2
    show ?thesis
    proof (cases us)
      case Nil
      with 2 show ?thesis by simp
    next
      case (Cons u us')
      with 2 have "m \<in> set pre'" "m' \<in> set post" by auto
      with pre' post have "key m' < key m" "key m \<le> key m'" by auto
      then show ?thesis by simp
    qed
  qed
  with m' show ?thesis by simp
qed

lemma find_best_threshold_large:
  assumes sp: "shape_preserving cv" and big: "10 < nrows f" "10 < ncols f"
  defines "cands \<equiv> py_range 5 100 5"
  defines "dev \<equiv> (\<lambda>s. \<bar>double (double s - average_iris_size)\<bar>)"
  shows "\<exists>t s. find_best_threshold cv f = Inr t \<and> t \<in> set cands \<and>
           iris_size (image_processing cv f t) = Inr s \<and>
           (\<forall>u\<in>set cands. \<exists>s'. iris_size (image_processing cv f u) = Inr s' \<and>
               dev s \<le> dev s' \<and> (dev s' = dev s \<longrightarrow> t \<le> u))"
proof -
  define occ where "occ u = projr (iris_size (image_processing cv f u))" for u
  have occ: "iris_size (image_processing cv f u) = Inr (occ u)" for u
  proof -
    have "shape (image_processing cv f u) = shape f" by (rule shape_image_processing [OF sp])
    then have "10 < nrows (image_processing cv f u)" "10 < ncols (image_processing cv f u)"
      using big by (simp_all add: shape_def)
    then obtain s where "iris_size (image_processing cv f u) = Inr s"
      using iris_size_defined by blast
    then show ?thesis by (simp add: occ_def)
  qed
  let ?g = "\<lambda>t. (t, double (occ t))"
  let ?key = "\<lambda>p::int \<times> real. \<bar>double (snd p - average_iris_size)\<bar>"
  have loop: "trials_loop cv f cands [] = Inr (map ?g cands)"
    using trials_loop_succeeds [of cands cv f occ "[]"] occ by simp
  have "cands \<noteq> []" by (simp add: cands_def py_range_candidates)
  then obtain m where m: "py_min ?key (map ?g cands) = Inr m"
    using py_min_nonempty [of "map ?g cands" ?key] by auto
  from py_min_split [OF m] obtain pre post where
    split: "map ?g cands = pre @ m # post" and
    pre: "\<forall>z\<in>set pre. ?key m < ?key z" and post: "\<forall>z\<in>set post. ?key m \<le> ?key z"
    by blast
  from split obtain c1 t c2 where
    cs: "cands = c1 @ t # c2" and p1: "pre = map ?g c1" and mt: "m = ?g t" and p2: "post = map ?g c2"
    by (auto simp add: map_eq_append_conv map_eq_Cons_conv)
  have fbt: "find_best_threshold cv f = Inr t"
    using loop m mt by (simp add: find_best_threshold_def cands_def)
  have ord: "\<forall>u\<in>set c2. t < u"
    using candidates_sorted cs by (simp add: cands_def sorted_wrt_append)
  have "\<exists>s'. iris_size (image_processing cv f u) = Inr s' \<and>
           dev (occ t) \<le> dev s' \<and> (dev s' = dev (occ t) \<longrightarrow> t \<le> u)"
    if "u \<in> set cands" for u
  proof -
    from that cs consider "u \<in> set c1" | "u = t" | "u \<in> set c2" by auto
    then have "dev (occ t) \<le> dev (occ u) \<and> (dev (occ u) = dev (occ t) \<longrightarrow> t \<le> u)"
    proof cases
      case 1
      then have "?key m < ?key (?g u)" using pre p1 by simp
      then show ?thesis by (simp add: mt dev_def)
    next
      case 2
      then show ?thesis by simp
    next
      case 3
      then have "?key m \<le> ?key (?g u)" using post p2 by simp
      moreover have "t < u" using ord 3 by simp
      ultimately show ?thesis by (simp add: mt dev_def)
    qed
    with occ show ?thesis by blast
  qed
  moreover have "t \<in> set cands" using cs by simp
  ultimately show ?thesis using fbt occ by blast
qed

lemma average_iris_size_bounds: "7 / 16 \<le> average_iris_size" "average_iris_size \<le> 1 / 2"
proof -
  have "double (7 / 16) \<le> double (48 / 100)" by (rule double_mono) simp
  then show "7 / 16 \<le> average_iris_size"
    by (simp add: average_iris_size_def double_dyadics)
  have "double (48 / 100) \<le> double (1 / 2)" by (rule double_mono) simp
  then show "average_iris_size \<le> 1 / 2"
    by (simp add: average_iris_size_def double_dyadics)
qed

lemma key_separation:
  assumes "s \<le> 1 / 4 \<or> 3 / 4 \<le> s"
  shows "\<bar>double (double (1 / 2) - average_iris_size)\<bar> < \<bar>double (double s - average_iris_size)\<bar>"
proof -
  note c = average_iris_size_bounds
  have "double 0 \<le> double (1 / 2 - average_iris_size)" using c by (intro double_mono) simp
  moreover have "double (1 / 2 - average_iris_size) \<le> double (1 / 16)"
    using c by (intro double_mono) simp
  ultimately have half: "\<bar>double (double (1 / 2) - average_iris_size)\<bar> \<le> 1 / 16"
    by (simp add: double_dyadics double_zero)
  from assms have "3 / 16 \<le> \<bar>double (double s - average_iris_size)\<bar>"
  proof
    assume "s \<le> 1 / 4"
    then have "double s \<le> double (1 / 4)" by (rule double_mono)
    then have "double s - average_iris_size \<le> - (3 / 16)"
      using c by (simp add: double_dyadics)
    then have "double (double s - average_iris_size) \<le> double (- (3 / 16))"
      by (rule double_mono)
    then show ?thesis by (simp add: double_dyadics)
  next
    assume "3 / 4 \<le> s"
    then have "double (3 / 4) \<le> double s" by (rule double_mono)
    then have "1 / 4 \<le> double s - average_iris_size"
      using c by (simp add: double_dyadics)
    then have "double (1 / 4) \<le> double (double s - average_iris_size)"
      by (rule double_mono)
    then show ?thesis by (simp add: double_dyadics)
  qed
  with half show ?thesis by simp
qed

lemma find_best_threshold_at_half:
  assumes occ: "\<And>t. iris_size (image_processing cv f t) = Inr (occ t)"
    and cs: "py_range 5 100 5 = c1 @ t0 # c2"
    and half: "occ t0 = 1 / 2"
    and others: "\<forall>t\<in>set c1 \<union> set c2. occ t \<le> 1 / 4 \<or> 3 / 4 \<le> occ t"
  shows "find_best_threshold cv f = Inr t0"
proof -
  let ?g = "\<lambda>t. (t, double (occ t))"
  let ?key = "\<lambda>p::int \<times> real. \<bar>double (snd p - average_iris_size)\<bar>"
  have loop: "trials_loop cv f (py_range 5 100 5) [] = Inr (map ?g c1 @ ?g t0 # map ?g c2)"
    using trials_loop_succeeds [of "py_range 5 100 5" cv f occ "[]"] occ by (simp add: cs)
  have sep: "?key (?g t0) < ?key (?g t)" if "t \<in> set c1 \<union> set c2" for t
    using key_separation [of "occ t"] others that by (simp add: half)
  have "py_min ?key (map ?g c1 @ ?g t0 # map ?g c2) = Inr (?g t0)"
  proof (rule py_min_unique)
    show "\<forall>z\<in>set (map ?g c1). ?key (?g t0) < ?key z" using sep by auto
    show "\<forall>z\<in>set (map ?g c2). ?key (?g t0) \<le> ?key z" using sep by (auto intro: less_imp_le)
  qed
  then show ?thesis using loop by (simp add: find_best_threshold_def)
qed

lemma demo_occupancy:
  "iris_size (image_processing demo_cv demo_eye_frame t) =
     Inr ((6 - ((if t < 50 then 1 else 0) + (if t < 55 then 2 else 0) + (if t < 60 then 2 else 0)
               + (if t < 65 then 1 else 0))) / 6)"
  by (simp add: iris_size_eq image_processing_def demo_cv_def demo_eye_frame_def cv_threshold_def
      countNonZero_def np_slice_def slice_bound_def Let_def upt_rec)

lemma demo_best_threshold: "find_best_threshold demo_cv demo_eye_frame = Inr 55"
proof -
  let ?occ = "\<lambda>t::int. (6 - ((if t < 50 then 1 else 0) + (if t < 55 then 2 else 0)
                + (if t < 60 then 2 else 0) + (if t < 65 then 1 else 0))) / (6::real)"
  have cs: "py_range 5 100 5
      = [5, 10, 15, 20, 25, 30, 35, 40, 45, 50] @ 55 # [60, 65, 70, 75, 80, 85, 90, 95]"
    by (simp add: py_range_candidates)
  have half: "?occ 55 = 1 / 2" by simp
  have "list_all (\<lambda>t. ?occ t \<le> 1 / 4 \<or> 3 / 4 \<le> ?occ t)
          ([5, 10, 15, 20, 25, 30, 35, 40, 45, 50] @ [60, 65, 70, 75, 80, 85, 90, 95])"
    by (simp only: list.pred_inject append.simps) simp
  then have others: "\<forall>t\<in>set [5, 10, 15, 20, 25, 30, 35, 40, 45, 50] \<union> set [60, 65, 70, 75, 80, 85, 90, 95].
      ?occ t \<le> 1 / 4 \<or> 3 / 4 \<le> ?occ t"
    by (simp only: list_all_iff set_append)
  show ?thesis
    by (rule find_best_threshold_at_half [where occ = ?occ, OF demo_occupancy cs half others])
qed

text \<open>
  Claim C4, amended. For every eye frame with more than 10 rows and more than 10 columns
  (the library filters keeping the shape), \<^verbatim>\<open>find_best_threshold\<close> returns a threshold
  among 5, 10, ..., 95 whose distance from 0.48, as the program computes it in floats
  (the occupancy and the literal rounded to doubles, the difference rounded), is minimal
  among all the candidates, and every candidate with the same computed distance is at
  least as large: the smallest of the thresholds with the least computed distance is
  returned.
\<close>

theorem find_best_threshold_closest:
  assumes "shape_preserving cv" and "10 < nrows f" and "10 < ncols f"
  shows "\<exists>t s. find_best_threshold cv f = Inr t \<and>
           t \<in> set [5, 10, 15, 20, 25, 30, 35, 40, 45, 50, 55, 60, 65, 70, 75, 80, 85, 90, 95] \<and>
           iris_size (image_processing cv f t) = Inr s \<and>
           (\<forall>u\<in>set [5, 10, 15, 20, 25, 30, 35, 40, 45, 50, 55, 60, 65, 70, 75, 80, 85, 90, 95].
              \<exists>s'. iris_size (image_processing cv f u) = Inr s' \<and>
                 \<bar>double (double s - double (48 / 100))\<bar> \<le> \<bar>double (double s' - double (48 / 100))\<bar> \<and>
                 (\<bar>double (double s' - double (48 / 100))\<bar> = \<bar>double (double s - double (48 / 100))\<bar>
                    \<longrightarrow> t \<le> u))"
  using find_best_threshold_large [OF assms]
  unfolding py_range_candidates average_iris_size_def .

theorem find_best_threshold_closest_witness:
  "shape_preserving demo_cv \<and> 10 < nrows demo_eye_frame \<and> 10 < ncols demo_eye_frame \<and>
   find_best_threshold demo_cv demo_eye_frame = Inr 55 \<and>
   (\<exists>t s. find_best_threshold demo_cv demo_eye_frame = Inr t \<and>
           t \<in> set [5, 10, 15, 20, 25, 30, 35, 40, 45, 50, 55, 60, 65, 70, 75, 80, 85, 90, 95] \<and>
           iris_size (image_processing demo_cv demo_eye_frame t) = Inr s \<and>
           (\<forall>u\<in>set [5, 10, 15, 20, 25, 30, 35, 40, 45, 50, 55, 60, 65, 70, 75, 80, 85, 90, 95].
              \<exists>s'. iris_size (image_processing demo_cv demo_eye_frame u) = Inr s' \<and>
                 \<bar>double (double s - double (48 / 100))\<bar> \<le> \<bar>double (double s' - double (48 / 100))\<bar> \<and>
                 (\<bar>double (double s' - double (48 / 100))\<bar> = \<bar>double (double s - double (48 / 100))\<bar>
                    \<longrightarrow> t \<le> u)))"
proof -
  have r: "10 < nrows demo_eye_frame" and c: "10 < ncols demo_eye_frame"
    by (simp_all add: demo_eye_frame_def)
  show ?thesis
    using shape_preserving_demo r c find_best_threshold_closest [OF shape_preserving_demo r c]
      demo_best_threshold
    by simp
qed

lemma sum_list_const:
  "(\<And>j. j \<in> set js \<Longrightarrow> f j = (k::nat)) \<Longrightarrow> sum_list (map f js) = k * length js"
  by (induction js) simp_all

lemma tie_row_split: "[0..<225] = [0..<55] @ [55..<161] @ [161..<225]"
proof -
  have "[0..<55 + 106] = [0..<55] @ [55..<55 + 106]" by (rule upt_add_eq_append) simp
  moreover have "[0..<161 + 64] = [0..<161] @ [161..<161 + 64]" by (rule upt_add_eq_append) simp
  ultimately show ?thesis by simp
qed

lemma tie_count:
  "countNonZero (np_slice (image_processing demo_cv tie_frame t) 5 (-5) 5 (-5)) =
     (if t < 0 then 55 else 0) + (if t < 50 then 106 else 0) + (if t < 255 then 64 else 0)"
proof -
  let ?f = "\<lambda>j. if (if t < int (if 5 + j < 60 then 0 else if 5 + j < 166 then 50 else 255)
                     then 255 else 0) \<noteq> (0::nat) then 1 else (0::nat)"
  have a: "sum_list (map ?f [0..<55]) = (if t < 0 then 1 else 0) * length [0..<55]"
    by (rule sum_list_const) auto
  have b: "sum_list (map ?f [55..<161]) = (if t < 50 then 1 else 0) * length [55..<161]"
    by (rule sum_list_const) auto
  have c: "sum_list (map ?f [161..<225]) = (if t < 255 then 1 else 0) * length [161..<225]"
    by (rule sum_list_const) auto
  have "countNonZero (np_slice (image_processing demo_cv tie_frame t) 5 (-5) 5 (-5))
          = sum_list (map ?f [0..<225])"
    by (simp add: countNonZero_def np_slice_def slice_bound_def image_processing_def demo_cv_def
        tie_frame_def cv_threshold_def Let_def)
  also have "\<dots> = sum_list (map ?f [0..<55]) + sum_list (map ?f [55..<161])
                    + sum_list (map ?f [161..<225])"
    by (simp only: tie_row_split map_append sum_list_append add.assoc)
  finally show ?thesis by (simp only: a b c) simp
qed

lemma tie_occupancy:
  "iris_size (image_processing demo_cv tie_frame t) =
     Inr ((225 - real ((if t < 0 then 55 else 0) + (if t < 50 then 106 else 0)
                       + (if t < 255 then 64 else 0))) / 225)"
proof -
  have "nrows (image_processing demo_cv tie_frame t) = 11"
    and "ncols (image_processing demo_cv tie_frame t) = 235"
    by (simp_all add: image_processing_def demo_cv_def tie_frame_def cv_threshold_def Let_def)
  then show ?thesis by (simp add: iris_size_eq tie_count)
qed


lemma average_iris_size_value: "average_iris_size = 8646911284551352 / 2 ^ 54"
  by (simp only: average_iris_size_def double_048)

lemma tie_key_low:
  "\<bar>double (double (11 / 45) - average_iris_size)\<bar> = 8486783297800401 / 2 ^ 55"
proof -
  have "double (11 / 45) - average_iris_size = of_int (- 8486783297800401) / 2 ^ 55"
    by (simp add: average_iris_size_value double_11_45)
  moreover have "double (of_int (- 8486783297800401) / 2 ^ 55) = of_int (- 8486783297800401) / 2 ^ 55"
    by (rule double_exact) simp_all
  ultimately have "double (double (11 / 45) - average_iris_size)
      = of_int (- 8486783297800401) / 2 ^ 55"
    by (simp only:)
  then show ?thesis by (simp only:) simp
qed

lemma tie_key_high:
  "\<bar>double (double (161 / 225) - average_iris_size)\<bar> = 8486783297800400 / 2 ^ 55"
proof -
  have "double (161 / 225) - average_iris_size = of_int 8486783297800400 / 2 ^ 55"
    by (simp add: average_iris_size_value double_161_225)
  moreover have "double (of_int 8486783297800400 / 2 ^ 55) = of_int 8486783297800400 / 2 ^ 55"
    by (rule double_exact) simp_all
  ultimately have "double (double (161 / 225) - average_iris_size)
      = of_int 8486783297800400 / 2 ^ 55"
    by (simp only:)
  then show ?thesis by (simp only:) simp
qed

lemma tie_best_threshold: "find_best_threshold demo_cv tie_frame = Inr 50"
proof -
  let ?occ = "\<lambda>t::int. (225 - real ((if t < 0 then 55 else 0) + (if t < 50 then 106 else 0)
                       + (if t < 255 then 64 else 0))) / 225"
  let ?g = "\<lambda>t. (t, double (?occ t))"
  let ?key = "\<lambda>p::int \<times> real. \<bar>double (snd p - average_iris_size)\<bar>"
  let ?pre = "[5, 10, 15, 20, 25, 30, 35, 40, 45] :: int list"
  let ?post = "[55, 60, 65, 70, 75, 80, 85, 90, 95] :: int list"
  have cs: "py_range 5 100 5 = ?pre @ 50 # ?post" by (simp add: py_range_candidates)
  have "\<forall>t\<in>set (py_range 5 100 5). iris_size (image_processing demo_cv tie_frame t) = Inr (?occ t)"
    using tie_occupancy by blast
  then have "trials_loop demo_cv tie_frame (py_range 5 100 5) []
                = Inr ([] @ map ?g (py_range 5 100 5))"
    by (rule trials_loop_succeeds)
  also have "[] @ map ?g (py_range 5 100 5) = map ?g ?pre @ ?g 50 # map ?g ?post"
    unfolding cs by (simp only: append_Nil map_append list.map(2))
  finally have loop: "trials_loop demo_cv tie_frame (py_range 5 100 5) []
                = Inr (map ?g ?pre @ ?g 50 # map ?g ?post)" .
  have low: "list_all (\<lambda>t. ?occ t = 11 / 45) ?pre"
    by (simp only: list.pred_inject) simp
  have high: "list_all (\<lambda>t. ?occ t = 161 / 225) ?post"
    by (simp only: list.pred_inject) simp
  have mid: "?occ 50 = 161 / 225" by simp
  have lt: "?key (?g 50) < ?key (?g t)" if "t \<in> set ?pre" for t
  proof -
    have "?occ t = 11 / 45" using low that by (simp only: list_all_iff)
    then show ?thesis using mid by (simp only: snd_conv tie_key_low tie_key_high) simp
  qed
  have le: "?key (?g 50) \<le> ?key (?g t)" if "t \<in> set ?post" for t
  proof -
    have "?occ t = 161 / 225" using high that by (simp only: list_all_iff)
    then show ?thesis using mid by (simp only: snd_conv tie_key_high)
  qed
  have pm: "py_min ?key (map ?g ?pre @ ?g 50 # map ?g ?post) = Inr (?g 50)"
  proof (rule py_min_unique)
    show "\<forall>z\<in>set (map ?g ?pre). ?key (?g 50) < ?key z" using lt by (simp only: set_map) blast
    show "\<forall>z\<in>set (map ?g ?post). ?key (?g 50) \<le> ?key z" using le by (simp only: set_map) blast
  qed
  show ?thesis
    by (simp only: find_best_threshold_def loop pm sum.case prod.case)
qed

text \<open>
  Claim C4 as stated fails in two ways. On a frame of 10 rows \<^verbatim>\<open>find_best_threshold\<close>
  returns no threshold: it raises ZeroDivisionError. On a frame whose occupancy is 11/45 at
  the thresholds 5 to 45 and 161/225 from 50 on, both fractions are exactly 53/225 away
  from 0.48, yet the program returns 50 and not the smallest of the tied thresholds, 5:
  the distances it compares are floats, 0.23555555555555555 against 0.23555555555555552.
\<close>

theorem find_best_threshold_counterexample:
  "find_best_threshold demo_cv flat_eye_frame = Inl ZeroDivisionError
   \<and> iris_size (image_processing demo_cv tie_frame 5) = Inr (11 / 45)
   \<and> iris_size (image_processing demo_cv tie_frame 50) = Inr (161 / 225)
   \<and> \<bar>11 / 45 - 48 / 100\<bar> = (\<bar>161 / 225 - 48 / 100\<bar> :: real)
   \<and> find_best_threshold demo_cv tie_frame = Inr 50"
proof -
  have "nrows flat_eye_frame \<le> 10 \<or> ncols flat_eye_frame \<le> 10"
    by (simp add: flat_eye_frame_def)
  then have small: "find_best_threshold demo_cv flat_eye_frame = Inl ZeroDivisionError"
    by (rule find_best_threshold_small [OF shape_preserving_demo])
  have "iris_size (image_processing demo_cv tie_frame 5) = Inr (11 / 45)"
    and "iris_size (image_processing demo_cv tie_frame 50) = Inr (161 / 225)"
    by (simp_all add: tie_occupancy)
  with small tie_best_threshold show ?thesis by simp
qed

section \<open>The guard on the calibration samples\<close>

lemma Eye_build_complete:
  "is_complete cal \<Longrightarrow> fst (Eye_build cv fr lm pts side cal) = cal"
  by (auto simp add: Eye_build_def Let_def split: sum.splits option.splits prod.splits)

lemma Eye_init_complete:
  "is_complete cal \<Longrightarrow> fst (Eye_init cv fr lm side cal) = cal"
  by (simp add: Eye_init_def Eye_build_complete)

lemma except_IndexError_calibration:
  "gaze_calibration (fst (except_IndexError e g)) = gaze_calibration g"
  by (simp add: except_IndexError_def)

lemma refresh_complete:
  assumes "is_complete (gaze_calibration g)"
  shows "gaze_calibration (fst (refresh cv f g)) = gaze_calibration g"
proof -
  let ?cal = "gaze_calibration g"
  have left: "fst (Eye_init cv fr lm 0 ?cal) = ?cal" for fr lm
    using assms by (rule Eye_init_complete)
  have right: "fst (Eye_init cv fr lm 1 ?cal) = ?cal" for fr lm
    using assms by (rule Eye_init_complete)
  show ?thesis
    unfolding refresh_def GazeTracking_analyze_def Let_def
    using left right
    by (auto simp add: except_IndexError_calibration split: sum.splits prod.splits option.splits
        dest!: arg_cong [where f = fst])
qed

lemma demo_evaluate_left_full:
  "evaluate demo_cv left_full demo_eye_frame 0 =
     Inr (left_full\<lparr>thresholds_left := thresholds_left left_full @ [55]\<rparr>)"
  by (simp add: evaluate_def demo_best_threshold)

text \<open>
  Claim C1 as stated fails: \<^verbatim>\<open>Calibration.evaluate\<close> has no guard. Called for the left
  side of a calibration whose left side already has 20 samples, it appends a 21st one, and
  the left threshold moves from 5 to 7.
\<close>

theorem evaluate_appends_counterexample:
  "length (thresholds_left left_full) = 20
   \<and> evaluate demo_cv left_full demo_eye_frame 0 =
       Inr (left_full\<lparr>thresholds_left := thresholds_left left_full @ [55]\<rparr>)
   \<and> threshold left_full 0 = Inr (Some 5)
   \<and> threshold (left_full\<lparr>thresholds_left := thresholds_left left_full @ [55]\<rparr>) 0 = Inr (Some 7)"
proof -
  have len: "length (thresholds_left left_full) = 20" by (simp add: left_full_def)
  have before: "threshold left_full 0 = Inr (Some 5)"
    by (simp add: threshold_side left_full_def sum_list_replicate signed_divide_int_def Let_def)
  have after: "threshold (left_full\<lparr>thresholds_left := thresholds_left left_full @ [55]\<rparr>) 0
                 = Inr (Some 7)"
    by (simp add: threshold_side left_full_def sum_list_replicate signed_divide_int_def Let_def)
  show ?thesis using len demo_evaluate_left_full before after by simp
qed

text \<open>
  Claim C1, amended. The guard is in the caller: \<^verbatim>\<open>Eye._analyze\<close> calls \<^verbatim>\<open>evaluate\<close> only
  while \<^verbatim>\<open>is_complete()\<close> is false. Once both sides have at least \<open>nb_frames\<close> samples,
  building an eye for any side, and a whole \<^verbatim>\<open>refresh\<close>, leave the calibration (both sample
  sequences, hence both mean thresholds) unchanged, whether or not the call raises.
\<close>

theorem complete_calibration_frozen:
  assumes "is_complete cal"
  shows "fst (Eye_init cv frame lm side cal) = cal
       \<and> (gaze_calibration g = cal \<longrightarrow> gaze_calibration (fst (refresh cv f g)) = cal)"
  using assms Eye_init_complete refresh_complete by metis


theorem complete_calibration_frozen_witness:
  "is_complete both_full
   \<and> fst (Eye_init demo_cv open_frame open_landmarks 0 both_full) = both_full
   \<and> gaze_calibration calibrated_gaze = both_full
   \<and> gaze_calibration (fst (refresh demo_cv open_frame calibrated_gaze)) = both_full"
proof -
  have c: "is_complete both_full" by (simp add: is_complete_def both_full_def)
  have g: "gaze_calibration calibrated_gaze = both_full" by (simp add: calibrated_gaze_def)
  show ?thesis
    using c g complete_calibration_frozen
                [OF c, of demo_cv open_frame open_landmarks 0 calibrated_gaze open_frame]
    by simp
qed

section \<open>The queries of a session\<close>

lemma pupils_located_cases:
  assumes "pupils_located g"
  obtains l r xl yl xr yr where
    "eye_left g = Some l" "eye_right g = Some r"
    "pupil_x (eye_pupil l) = Some xl" "pupil_y (eye_pupil l) = Some yl"
    "pupil_x (eye_pupil r) = Some xr" "pupil_y (eye_pupil r) = Some yr"
  using assms by (auto simp add: pupils_located_def split: option.splits)

text \<open>
  Claim C8. Whenever both pupils are located, \<^verbatim>\<open>pupil_left_coords\<close> and
  \<^verbatim>\<open>pupil_right_coords\<close> return the eye's origin plus the pupil's coordinates in the eye
  frame, component by component.
\<close>

theorem pupil_coords_origin_plus_local:
  assumes "pupils_located g"
  shows "\<exists>l r xl yl xr yr.
           eye_left g = Some l \<and> eye_right g = Some r \<and>
           pupil_x (eye_pupil l) = Some xl \<and> pupil_y (eye_pupil l) = Some yl \<and>
           pupil_x (eye_pupil r) = Some xr \<and> pupil_y (eye_pupil r) = Some yr \<and>
           pupil_left_coords g = Some (fst (eye_origin l) + xl, snd (eye_origin l) + yl) \<and>
           pupil_right_coords g = Some (fst (eye_origin r) + xr, snd (eye_origin r) + yr)"
proof -
  from assms obtain l r xl yl xr yr where
    "eye_left g = Some l" "eye_right g = Some r"
    "pupil_x (eye_pupil l) = Some xl" "pupil_y (eye_pupil l) = Some yl"
    "pupil_x (eye_pupil r) = Some xr" "pupil_y (eye_pupil r) = Some yr"
    by (rule pupils_located_cases)
  with assms show ?thesis
    by (simp add: pupil_left_coords_def pupil_right_coords_def)
qed

lemma centered_gaze_located: "pupils_located centered_gaze"
  by (simp add: pupils_located_def centered_gaze_def centered_eye_def GazeTracking_init_def)

theorem pupil_coords_origin_plus_local_witness:
  "pupils_located centered_gaze
   \<and> pupil_left_coords centered_gaze = Some (130, 95)
   \<and> pupil_right_coords centered_gaze = Some (230, 95)"
  using centered_gaze_located pupil_coords_origin_plus_local [OF centered_gaze_located]
  by (auto simp add: centered_gaze_def centered_eye_def GazeTracking_init_def)

lemma is_center_never_true: "is_center g \<noteq> Inr (Some True)"
  by (auto simp add: is_center_def is_right_def is_left_def split: sum.splits option.splits if_splits)

text \<open>
  Claim C3, at a state where both pupils are located exactly at the centers of their eye
  frames (60 columns wide): \<^verbatim>\<open>horizontal_ratio\<close> is 30 / (2 * 30 - 10) = 0.6,
  \<^verbatim>\<open>is_right\<close> holds because it tests \<open>ratio \<le> 0.65\<close>, and \<^verbatim>\<open>is_center\<close> returns false.
\<close>

theorem is_center_false_at_center:
  "pupils_located centered_gaze
   \<and> horizontal_ratio centered_gaze = Inr (Some (3 / 5))
   \<and> is_right centered_gaze = Inr (Some True)
   \<and> is_left centered_gaze = Inr (Some False)
   \<and> is_center centered_gaze = Inr (Some False)"
proof -
  have ratio: "horizontal_ratio centered_gaze = Inr (Some (3 / 5))"
    using centered_gaze_located
    by (simp add: horizontal_ratio_def centered_gaze_def centered_eye_def GazeTracking_init_def
        truediv_def)
  have right: "is_right centered_gaze = Inr (Some True)"
    using centered_gaze_located ratio by (simp add: is_right_def)
  have left: "is_left centered_gaze = Inr (Some False)"
    using centered_gaze_located ratio by (simp add: is_left_def)
  have "is_center centered_gaze = Inr (Some False)"
    using centered_gaze_located right by (simp add: is_center_def)
  with centered_gaze_located ratio right left show ?thesis by simp
qed

lemma jitter_blinking: "Eye_blinking_ratio jitter_landmarks LEFT_EYE_POINTS = None"
  by (simp add: Eye_blinking_ratio_def jitter_landmarks_def open_landmarks_def LEFT_EYE_POINTS_def
      Eye_middle_point_def py_int_def hypot_def truediv_def Let_def)

text \<open>
  Claim C2, at a state where both pupils are located and the left blink ratio is
  \<^verbatim>\<open>None\<close> (the landmarks give the left aperture height zero): \<^verbatim>\<open>is_blinking\<close> adds
  \<^verbatim>\<open>None\<close> to a number and raises TypeError.
\<close>

theorem is_blinking_raises_on_undefined_ratio:
  "Eye_blinking_ratio jitter_landmarks LEFT_EYE_POINTS = None
   \<and> pupils_located jitter_gaze
   \<and> is_blinking jitter_gaze = Inl TypeError"
proof -
  have located: "pupils_located jitter_gaze"
    by (simp add: pupils_located_def jitter_gaze_def centered_eye_def GazeTracking_init_def)
  have "is_blinking jitter_gaze = Inl TypeError"
    using located
    by (simp add: is_blinking_def jitter_gaze_def centered_eye_def GazeTracking_init_def
        jitter_blinking)
  with located jitter_blinking show ?thesis by simp
qed

section \<open>The centroid of the second-largest contour\<close>

lemma py_index_minus_two:
  "py_index xs (-2) = (if 2 \<le> length xs then Inr (xs ! (length xs - 2)) else Inl IndexError)"
proof (cases "2 \<le> length xs")
  case True
  then have "nat (int (length xs) + - 2) = length xs - 2" by simp
  with True show ?thesis by (simp add: py_index_def)
next
  case False
  then show ?thesis by (simp add: py_index_def)
qed

lemma sorted_last_two:
  fixes area :: "'a \<Rightarrow> real"
  assumes "2 \<le> length cs"
  shows "second_largest area (sort_key area cs ! (length cs - 2)) cs"
proof -
  let ?s = "sort_key area cs"
  let ?n = "length cs"
  have len: "length ?s = ?n" by simp
  have split: "?s = take (?n - 2) ?s @ [?s ! (?n - 2), ?s ! (?n - 1)]"
  proof -
    have "?s = take (?n - 2) ?s @ drop (?n - 2) ?s" by simp
    moreover have "drop (?n - 2) ?s = ?s ! (?n - 2) # drop (Suc (?n - 2)) ?s"
      using assms len by (metis Cons_nth_drop_Suc diff_less zero_less_numeral less_le_trans)
    moreover have "Suc (?n - 2) = ?n - 1" using assms by simp
    moreover have "drop (?n - 1) ?s = [?s ! (?n - 1)]"
      using assms len
      by (metis Cons_nth_drop_Suc Suc_diff_1 diff_less drop_all le_refl less_le_trans
          zero_less_numeral zero_less_one)
    ultimately show ?thesis by simp
  qed
  have srt: "sorted (map area ?s)" by (rule sorted_sort_key)
  have "mset cs = mset ?s" by simp
  also have "\<dots> = mset (take (?n - 2) ?s @ [?s ! (?n - 2), ?s ! (?n - 1)])"
    using split by simp
  finally have m: "mset cs = add_mset (?s ! (?n - 1)) (add_mset (?s ! (?n - 2)) (mset (take (?n - 2) ?s)))"
    by simp
  have le_top: "area (?s ! (?n - 2)) \<le> area (?s ! (?n - 1))"
    using srt assms len by (simp add: sorted_iff_nth_mono)
  have below: "\<forall>r\<in>set (take (?n - 2) ?s). area r \<le> area (?s ! (?n - 2))"
  proof
    fix r assume "r \<in> set (take (?n - 2) ?s)"
    then obtain i where i: "i < ?n - 2" "r = ?s ! i"
      by (auto simp add: in_set_conv_nth)
    then have "map area ?s ! i \<le> map area ?s ! (?n - 2)"
      using srt assms len by (intro sorted_nth_mono) simp_all
    then show "area r \<le> area (?s ! (?n - 2))" using i assms len by simp
  qed
  show ?thesis unfolding second_largest_def using m le_top below by blast
qed

lemma detect_iris_coords:
  fixes cv eye_frame t
  defines "cs \<equiv> findContours cv (image_processing cv eye_frame t)"
  defines "c \<equiv> sort_key (contourArea cv) cs ! (length cs - 2)"
  shows "(pupil_x (Pupil_init cv eye_frame t), pupil_y (Pupil_init cv eye_frame t)) =
           (if length cs < 2 \<or> m00 (cv_moments cv c) = 0 then (None, None)
            else (Some (py_int (m10 (cv_moments cv c) / m00 (cv_moments cv c))),
                  Some (py_int (m01 (cv_moments cv c) / m00 (cv_moments cv c)))))"
  by (simp add: Pupil_init_def detect_iris_def Let_def py_index_minus_two truediv_def cs_def c_def)


text \<open>
  Claim C6 as stated fails in the coordinates: they are not the quotients M10/M00 and
  M01/M00 but their truncations. With the two contours of the demo library the selected
  contour has M00 = 2, M10 = 3, M01 = 5, and the pupil is put at (1, 2), not at (1.5, 2.5).
\<close>

theorem detect_iris_truncates_counterexample:
  "sort_key (contourArea demo_cv) (findContours demo_cv (image_processing demo_cv demo_eye_frame 55))
     ! 0 = [(1, 2), (2, 3)]
   \<and> m10 (cv_moments demo_cv [(1, 2), (2, 3)]) / m00 (cv_moments demo_cv [(1, 2), (2, 3)]) = 3 / 2
   \<and> m01 (cv_moments demo_cv [(1, 2), (2, 3)]) / m00 (cv_moments demo_cv [(1, 2), (2, 3)]) = 5 / 2
   \<and> pupil_x (Pupil_init demo_cv demo_eye_frame 55) = Some 1
   \<and> pupil_y (Pupil_init demo_cv demo_eye_frame 55) = Some 2"
proof -
  have sel: "sort_key (contourArea demo_cv)
               (findContours demo_cv (image_processing demo_cv demo_eye_frame 55)) ! 0
             = [(1, 2), (2, 3)]"
    by (simp add: demo_cv_def demo_contours_def)
  have len: "length (findContours demo_cv (image_processing demo_cv demo_eye_frame 55)) = 2"
    by (simp add: demo_cv_def demo_contours_def)
  have mom: "cv_moments demo_cv [(1, 2), (2, 3)] = \<lparr>m00 = 2, m10 = 3, m01 = 5\<rparr>"
    by (simp add: demo_cv_def)
  have "(pupil_x (Pupil_init demo_cv demo_eye_frame 55), pupil_y (Pupil_init demo_cv demo_eye_frame 55))
          = (Some 1, Some 2)"
    unfolding detect_iris_coords len using sel by (simp add: mom py_int_def)
  then show ?thesis using sel by (simp add: mom)
qed

text \<open>
  Claim C6, amended. \<^verbatim>\<open>Pupil.detect_iris\<close> sorts the contours of the mask by area ascending
  and takes the last but one: the second-largest contour. The pupil is undetected (both
  coordinates absent) exactly when there are fewer than two contours or the zeroth moment
  (the area) of the selected contour is zero; otherwise its coordinates are
  \<open>int(M10/M00)\<close> and \<open>int(M01/M00)\<close>, the centroid truncated towards zero.
\<close>

theorem detect_iris_second_largest_centroid:
  "(let cs = findContours cv (image_processing cv eye_frame' t);
        c = sort_key (contourArea cv) cs ! (length cs - 2);
        p = Pupil_init cv eye_frame' t
    in (2 \<le> length cs \<longrightarrow> second_largest (contourArea cv) c cs)
       \<and> ((pupil_x p = None \<and> pupil_y p = None) \<longleftrightarrow> (length cs < 2 \<or> m00 (cv_moments cv c) = 0))
       \<and> (\<not> (length cs < 2 \<or> m00 (cv_moments cv c) = 0) \<longrightarrow>
            pupil_x p = Some (py_int (m10 (cv_moments cv c) / m00 (cv_moments cv c))) \<and>
            pupil_y p = Some (py_int (m01 (cv_moments cv c) / m00 (cv_moments cv c)))))"
proof -
  let ?cs = "findContours cv (image_processing cv eye_frame' t)"
  let ?c = "sort_key (contourArea cv) ?cs ! (length ?cs - 2)"
  let ?p = "Pupil_init cv eye_frame' t"
  have sel: "2 \<le> length ?cs \<longrightarrow> second_largest (contourArea cv) ?c ?cs"
    using sorted_last_two by blast
  have coords: "(pupil_x ?p, pupil_y ?p) =
           (if length ?cs < 2 \<or> m00 (cv_moments cv ?c) = 0 then (None, None)
            else (Some (py_int (m10 (cv_moments cv ?c) / m00 (cv_moments cv ?c))),
                  Some (py_int (m01 (cv_moments cv ?c) / m00 (cv_moments cv ?c)))))"
    by (rule detect_iris_coords)
  have iff: "(pupil_x ?p = None \<and> pupil_y ?p = None) \<longleftrightarrow>
               (length ?cs < 2 \<or> m00 (cv_moments cv ?c) = 0)"
    using coords by (auto split: if_splits)
  have vals: "\<not> (length ?cs < 2 \<or> m00 (cv_moments cv ?c) = 0) \<longrightarrow>
            pupil_x ?p = Some (py_int (m10 (cv_moments cv ?c) / m00 (cv_moments cv ?c))) \<and>
            pupil_y ?p = Some (py_int (m01 (cv_moments cv ?c) / m00 (cv_moments cv ?c)))"
    using coords by (auto split: if_splits)
  show ?thesis unfolding Let_def using sel iff vals by blast
qed

theorem detect_iris_second_largest_centroid_witness:
  "2 \<le> length (findContours demo_cv (image_processing demo_cv open_frame 45))
   \<and> second_largest (contourArea demo_cv) [(1, 2), (2, 3)]
        (findContours demo_cv (image_processing demo_cv open_frame 45))
   \<and> m00 (cv_moments demo_cv [(1, 2), (2, 3)]) \<noteq> 0
   \<and> pupil_x (Pupil_init demo_cv open_frame 45) = Some 1
   \<and> pupil_y (Pupil_init demo_cv open_frame 45) = Some 2"
proof -
  have sel: "sort_key (contourArea demo_cv)
               (findContours demo_cv (image_processing demo_cv open_frame 45))
               ! (length (findContours demo_cv (image_processing demo_cv open_frame 45)) - 2)
             = [(1, 2), (2, 3)]"
    by (simp add: demo_cv_def demo_contours_def)
  have len: "length (findContours demo_cv (image_processing demo_cv open_frame 45)) = 2"
    by (simp add: demo_cv_def demo_contours_def)
  have mom: "cv_moments demo_cv [(1, 2), (2, 3)] = \<lparr>m00 = 2, m10 = 3, m01 = 5\<rparr>"
    by (simp add: demo_cv_def)
  show ?thesis
    using detect_iris_second_largest_centroid [of demo_cv open_frame 45]
    unfolding Let_def sel
    by (simp add: len mom py_int_def)
qed

section \<open>Sessions: the cap on the samples\<close>

lemma open_isolate_left:
  "Eye_isolate demo_cv open_frame open_landmarks LEFT_EYE_POINTS =
     Inr (\<lparr>nrows = 12, ncols = 16, pixel = (\<lambda>i j. 30 + 2 * j)\<rparr>, (15, 15), (8, 6),
          map open_landmarks LEFT_EYE_POINTS)"
  by (simp add: Eye_isolate_def LEFT_EYE_POINTS_def open_landmarks_def open_frame_def demo_cv_def
      shape_def np_full_def bitwise_not_def np_slice_def slice_bound_def Let_def)

lemma open_isolate_right:
  "Eye_isolate demo_cv open_frame open_landmarks RIGHT_EYE_POINTS =
     Inr (\<lparr>nrows = 12, ncols = 16, pixel = (\<lambda>i j. 70 + 2 * j)\<rparr>, (35, 15), (8, 6),
          map open_landmarks RIGHT_EYE_POINTS)"
  by (simp add: Eye_isolate_def RIGHT_EYE_POINTS_def open_landmarks_def open_frame_def demo_cv_def
      shape_def np_full_def bitwise_not_def np_slice_def slice_bound_def Let_def)

lemma crop_occupancy:
  "iris_size (image_processing demo_cv \<lparr>nrows = 12, ncols = 16, pixel = (\<lambda>i j. c + 2 * j)\<rparr> t) =
     Inr ((12 - 2 * ((if t < int c + 10 then 1 else 0) + (if t < int c + 12 then 1 else 0)
                   + (if t < int c + 14 then 1 else 0) + (if t < int c + 16 then 1 else 0)
                   + (if t < int c + 18 then 1 else 0) + (if t < int c + 20 then 1 else 0))) / 12)"
  by (simp add: iris_size_eq image_processing_def demo_cv_def cv_threshold_def
      countNonZero_def np_slice_def slice_bound_def Let_def upt_rec)

lemma left_crop_best:
  "find_best_threshold demo_cv \<lparr>nrows = 12, ncols = 16, pixel = (\<lambda>i j. 30 + 2 * j)\<rparr> = Inr 45"
proof -
  let ?occ = "\<lambda>t::int. (12 - 2 * ((if t < int 30 + 10 then 1 else 0) + (if t < int 30 + 12 then 1 else 0)
                   + (if t < int 30 + 14 then 1 else 0) + (if t < int 30 + 16 then 1 else 0)
                   + (if t < int 30 + 18 then 1 else 0) + (if t < int 30 + 20 then 1 else 0))) / (12::real)"
  have cs: "py_range 5 100 5
      = [5, 10, 15, 20, 25, 30, 35, 40] @ 45 # [50, 55, 60, 65, 70, 75, 80, 85, 90, 95]"
    by (simp add: py_range_candidates)
  have half: "?occ 45 = 1 / 2" by simp
  have "list_all (\<lambda>t. ?occ t \<le> 1 / 4 \<or> 3 / 4 \<le> ?occ t)
          ([5, 10, 15, 20, 25, 30, 35, 40] @ [50, 55, 60, 65, 70, 75, 80, 85, 90, 95])"
    by (simp only: list.pred_inject append.simps) simp
  then have others: "\<forall>t\<in>set [5, 10, 15, 20, 25, 30, 35, 40] \<union> set [50, 55, 60, 65, 70, 75, 80, 85, 90, 95].
      ?occ t \<le> 1 / 4 \<or> 3 / 4 \<le> ?occ t"
    by (simp only: list_all_iff set_append)
  show ?thesis
    by (rule find_best_threshold_at_half [where occ = ?occ, OF crop_occupancy cs half others])
qed

lemma right_crop_best:
  "find_best_threshold demo_cv \<lparr>nrows = 12, ncols = 16, pixel = (\<lambda>i j. 70 + 2 * j)\<rparr> = Inr 85"
proof -
  let ?occ = "\<lambda>t::int. (12 - 2 * ((if t < int 70 + 10 then 1 else 0) + (if t < int 70 + 12 then 1 else 0)
                   + (if t < int 70 + 14 then 1 else 0) + (if t < int 70 + 16 then 1 else 0)
                   + (if t < int 70 + 18 then 1 else 0) + (if t < int 70 + 20 then 1 else 0))) / (12::real)"
  have cs: "py_range 5 100 5
      = [5, 10, 15, 20, 25, 30, 35, 40, 45, 50, 55, 60, 65, 70, 75, 80] @ 85 # [90, 95]"
    by (simp add: py_range_candidates)
  have half: "?occ 85 = 1 / 2" by simp
  have "list_all (\<lambda>t. ?occ t \<le> 1 / 4 \<or> 3 / 4 \<le> ?occ t)
          ([5, 10, 15, 20, 25, 30, 35, 40, 45, 50, 55, 60, 65, 70, 75, 80] @ [90, 95])"
    by (simp only: list.pred_inject append.simps) simp
  then have others: "\<forall>t\<in>set [5, 10, 15, 20, 25, 30, 35, 40, 45, 50, 55, 60, 65, 70, 75, 80] \<union> set [90, 95].
      ?occ t \<le> 1 / 4 \<or> 3 / 4 \<le> ?occ t"
    by (simp only: list_all_iff set_append)
  show ?thesis
    by (rule find_best_threshold_at_half [where occ = ?occ, OF crop_occupancy cs half others])
qed

lemma iris_size_error: "iris_size f = Inl e \<Longrightarrow> e = ZeroDivisionError"
  by (simp add: iris_size_eq split: if_splits)

lemma trials_loop_error: "trials_loop cv f ts acc = Inl e \<Longrightarrow> e = ZeroDivisionError"
  by (induction ts arbitrary: acc) (auto simp add: Let_def split: sum.splits dest: iris_size_error)

lemma py_min_error: "py_min key xs = Inl e \<Longrightarrow> e = ValueError"
  by (cases xs) simp_all

lemma find_best_threshold_error: "find_best_threshold cv f = Inl e \<Longrightarrow> e \<noteq> IndexError"
  by (auto simp add: find_best_threshold_def split: sum.splits prod.splits
      dest: trials_loop_error py_min_error)

lemma evaluate_error: "evaluate cv cal f side = Inl e \<Longrightarrow> e \<noteq> IndexError"
  by (auto simp add: evaluate_def split: sum.splits dest: find_best_threshold_error)

lemma threshold_error: "threshold cal side = Inl e \<Longrightarrow> e \<noteq> IndexError"
  by (auto simp add: threshold_def truediv_def split: if_splits sum.splits)

lemma np_min_error: "np_min vs = Inl e \<Longrightarrow> e = ValueError"
  by (cases vs) simp_all

lemma np_max_error: "np_max vs = Inl e \<Longrightarrow> e = ValueError"
  by (cases vs) simp_all

lemma Eye_isolate_error: "Eye_isolate cv fr lm pts = Inl e \<Longrightarrow> e \<noteq> IndexError"
  by (auto simp add: Eye_isolate_def Let_def split: sum.splits prod.splits
      dest: np_min_error np_max_error)

lemma Eye_build_error:
  "Eye_build cv fr lm pts side cal = (cal', Inl e) \<Longrightarrow> e \<noteq> IndexError"
  by (auto simp add: Eye_build_def Let_def split: sum.splits prod.splits option.splits if_splits
      dest: Eye_isolate_error evaluate_error threshold_error)

lemma map_sum_Some_Inl: "map_sum id Some b = Inl e \<longleftrightarrow> b = Inl e"
  by (cases b) simp_all

lemma map_sum_Some_Inr: "map_sum id Some b = Inr v \<longleftrightarrow> (\<exists>w. b = Inr w \<and> v = Some w)"
  by (cases b) auto

lemma Eye_init_error:
  "Eye_init cv fr lm side cal = (cal', Inl e) \<Longrightarrow> e \<noteq> IndexError"
  by (cases "Eye_build cv fr lm LEFT_EYE_POINTS side cal";
      cases "Eye_build cv fr lm RIGHT_EYE_POINTS side cal")
     (auto simp add: Eye_init_def map_sum_Some_Inl split: if_splits dest: Eye_build_error)

lemma Eye_build_appends:
  assumes "\<not> is_complete cal" and "Eye_build cv fr lm pts side cal = (cal', Inr e)"
  shows "\<exists>f. evaluate cv cal f side = Inr cal'"
  using assms
  by (auto simp add: Eye_build_def Let_def split: sum.splits prod.splits option.splits)

lemma evaluate_left:
  "evaluate cv cal f 0 = Inr cal' \<Longrightarrow>
     \<exists>t. cal' = cal\<lparr>thresholds_left := thresholds_left cal @ [t]\<rparr>"
  by (auto simp add: evaluate_def split: sum.splits)

lemma evaluate_right:
  "evaluate cv cal f 1 = Inr cal' \<Longrightarrow>
     \<exists>t. cal' = cal\<lparr>thresholds_right := thresholds_right cal @ [t]\<rparr>"
  by (auto simp add: evaluate_def split: sum.splits)

lemma Eye_init_left_ok:
  assumes "Eye_init cv fr lm 0 cal = (cal', Inr el)"
  shows "if is_complete cal then cal' = cal
         else (\<exists>t. cal' = cal\<lparr>thresholds_left := thresholds_left cal @ [t]\<rparr>)"
proof (cases "is_complete cal")
  case True
  with Eye_init_complete [OF True, of cv fr lm 0] assms show ?thesis by simp
next
  case False
  from assms obtain e where "Eye_build cv fr lm LEFT_EYE_POINTS 0 cal = (cal', Inr e)"
    by (cases "Eye_build cv fr lm LEFT_EYE_POINTS 0 cal")
       (auto simp add: Eye_init_def map_sum_Some_Inr)
  from Eye_build_appends [OF False this] evaluate_left False show ?thesis by auto
qed

lemma Eye_init_right_ok:
  assumes "Eye_init cv fr lm 1 cal = (cal', Inr er)"
  shows "if is_complete cal then cal' = cal
         else (\<exists>t. cal' = cal\<lparr>thresholds_right := thresholds_right cal @ [t]\<rparr>)"
proof (cases "is_complete cal")
  case True
  with Eye_init_complete [OF True, of cv fr lm 1] assms show ?thesis by simp
next
  case False
  from assms obtain e where "Eye_build cv fr lm RIGHT_EYE_POINTS 1 cal = (cal', Inr e)"
    by (cases "Eye_build cv fr lm RIGHT_EYE_POINTS 1 cal")
       (auto simp add: Eye_init_def map_sum_Some_Inr)
  from Eye_build_appends [OF False this] evaluate_right False show ?thesis by auto
qed

lemma refresh_ok_cases:
  assumes "refresh cv f g = (g', Inr u)"
  shows "gaze_calibration g' = gaze_calibration g \<or>
         (\<exists>fr lm cal1 el er.
            Eye_init cv fr lm 0 (gaze_calibration g) = (cal1, Inr el) \<and>
            Eye_init cv fr lm 1 cal1 = (gaze_calibration g', Inr er))"
  using assms
  unfolding refresh_def GazeTracking_analyze_def Let_def
  apply (auto simp add: except_IndexError_def split: sum.splits prod.splits if_splits
      dest: Eye_init_error)
  apply blast
  done

lemma refresh_ok_invariant:
  assumes ok: "refresh cv f g = (g', Inr u)"
    and nb: "nb_frames (gaze_calibration g) = 20"
    and eq: "length (thresholds_left (gaze_calibration g)) = length (thresholds_right (gaze_calibration g))"
    and le: "length (thresholds_left (gaze_calibration g)) \<le> 20"
  shows "nb_frames (gaze_calibration g') = 20 \<and>
         length (thresholds_left (gaze_calibration g')) = length (thresholds_right (gaze_calibration g')) \<and>
         length (thresholds_left (gaze_calibration g')) \<le> 20"
proof -
  let ?cal = "gaze_calibration g"
  from refresh_ok_cases [OF ok] show ?thesis
  proof
    assume "gaze_calibration g' = ?cal"
    with nb eq le show ?thesis by simp
  next
    assume "\<exists>fr lm cal1 el er.
            Eye_init cv fr lm 0 ?cal = (cal1, Inr el) \<and>
            Eye_init cv fr lm 1 cal1 = (gaze_calibration g', Inr er)"
    then obtain fr lm cal1 el er where
      l: "Eye_init cv fr lm 0 ?cal = (cal1, Inr el)" and
      r: "Eye_init cv fr lm 1 cal1 = (gaze_calibration g', Inr er)" by blast
    show ?thesis
    proof (cases "is_complete ?cal")
      case True
      with Eye_init_left_ok [OF l] have c1: "cal1 = ?cal" by simp
      with True Eye_init_right_ok [OF r] have "gaze_calibration g' = ?cal" by simp
      with nb eq le show ?thesis by simp
    next
      case False
      with Eye_init_left_ok [OF l] obtain t where
        c1: "cal1 = ?cal\<lparr>thresholds_left := thresholds_left ?cal @ [t]\<rparr>" by auto
      from False nb eq le have short: "length (thresholds_left ?cal) < 20"
        by (auto simp add: is_complete_def)
      then have "\<not> is_complete cal1" using c1 nb eq by (simp add: is_complete_def)
      with Eye_init_right_ok [OF r] obtain t' where
        "gaze_calibration g' = cal1\<lparr>thresholds_right := thresholds_right cal1 @ [t']\<rparr>" by auto
      with c1 nb eq short show ?thesis by simp
    qed
  qed
qed

lemma refresh_all_invariant:
  assumes "refresh_all cv fs g = Inr g'"
    and "nb_frames (gaze_calibration g) = 20"
    and "length (thresholds_left (gaze_calibration g)) = length (thresholds_right (gaze_calibration g))"
    and "length (thresholds_left (gaze_calibration g)) \<le> 20"
  shows "nb_frames (gaze_calibration g') = 20 \<and>
         length (thresholds_left (gaze_calibration g')) = length (thresholds_right (gaze_calibration g')) \<and>
         length (thresholds_left (gaze_calibration g')) \<le> 20"
  using assms
proof (induction fs arbitrary: g)
  case Nil
  then show ?case by simp
next
  case (Cons f fs)
  from Cons.prems(1) obtain g1 u where
    step: "refresh cv f g = (g1, Inr u)" and rest: "refresh_all cv fs g1 = Inr g'"
    by (auto split: prod.splits sum.splits)
  from refresh_ok_invariant [OF step Cons.prems(2-4)] Cons.IH [OF rest] show ?case by blast
qed

lemma flat_isolate_left:
  "Eye_isolate demo_cv flat_frame flat_right_landmarks LEFT_EYE_POINTS =
     Inr (\<lparr>nrows = 12, ncols = 16, pixel = (\<lambda>i j. 30 + 2 * j)\<rparr>, (15, 15), (8, 6),
          map flat_right_landmarks LEFT_EYE_POINTS)"
  by (simp add: Eye_isolate_def LEFT_EYE_POINTS_def flat_right_landmarks_def open_landmarks_def
      flat_frame_def demo_cv_def shape_def np_full_def bitwise_not_def np_slice_def
      slice_bound_def Let_def)

lemma flat_isolate_right:
  "Eye_isolate demo_cv flat_frame flat_right_landmarks RIGHT_EYE_POINTS =
     Inr (\<lparr>nrows = 10, ncols = 16, pixel = (\<lambda>i j. 70 + 2 * j)\<rparr>, (35, 16), (8, 5),
          map flat_right_landmarks RIGHT_EYE_POINTS)"
  by (simp add: Eye_isolate_def RIGHT_EYE_POINTS_def flat_right_landmarks_def open_landmarks_def
      flat_frame_def demo_cv_def shape_def np_full_def bitwise_not_def np_slice_def
      slice_bound_def Let_def)

lemma threshold_after_append_left:
  "\<exists>t. threshold (cal\<lparr>thresholds_left := thresholds_left cal @ [v]\<rparr>) 0 = Inr (Some t)"
  by (simp add: threshold_side Let_def)

lemma threshold_after_append_right:
  "\<exists>t. threshold (cal\<lparr>thresholds_right := thresholds_right cal @ [v]\<rparr>) 1 = Inr (Some t)"
  by (simp add: threshold_side Let_def)

lemma open_init_left:
  assumes "\<not> is_complete cal"
  shows "\<exists>el. Eye_init demo_cv open_frame open_landmarks 0 cal =
           (cal\<lparr>thresholds_left := thresholds_left cal @ [45]\<rparr>, Inr el)"
proof -
  obtain t where "threshold (cal\<lparr>thresholds_left := thresholds_left cal @ [45]\<rparr>) 0 = Inr (Some t)"
    using threshold_after_append_left by blast
  then show ?thesis using assms
    by (simp add: Eye_init_def Eye_build_def open_isolate_left evaluate_def left_crop_best Let_def)
qed

lemma open_init_right:
  assumes "\<not> is_complete cal"
  shows "\<exists>er. Eye_init demo_cv open_frame open_landmarks 1 cal =
           (cal\<lparr>thresholds_right := thresholds_right cal @ [85]\<rparr>, Inr er)"
proof -
  obtain t where "threshold (cal\<lparr>thresholds_right := thresholds_right cal @ [85]\<rparr>) 1 = Inr (Some t)"
    using threshold_after_append_right by blast
  then show ?thesis using assms
    by (simp add: Eye_init_def Eye_build_def open_isolate_right evaluate_def right_crop_best Let_def)
qed

lemma flat_init_left:
  assumes "\<not> is_complete cal"
  shows "\<exists>el. Eye_init demo_cv flat_frame flat_right_landmarks 0 cal =
           (cal\<lparr>thresholds_left := thresholds_left cal @ [45]\<rparr>, Inr el)"
proof -
  obtain t where "threshold (cal\<lparr>thresholds_left := thresholds_left cal @ [45]\<rparr>) 0 = Inr (Some t)"
    using threshold_after_append_left by blast
  then show ?thesis using assms
    by (simp add: Eye_init_def Eye_build_def flat_isolate_left evaluate_def left_crop_best Let_def)
qed

lemma flat_init_right:
  assumes "\<not> is_complete cal"
  shows "Eye_init demo_cv flat_frame flat_right_landmarks 1 cal = (cal, Inl ZeroDivisionError)"
proof -
  have "evaluate demo_cv cal \<lparr>nrows = 10, ncols = 16, pixel = (\<lambda>i j. 70 + 2 * j)\<rparr> 1
          = Inl ZeroDivisionError"
    by (rule evaluate_small [OF shape_preserving_demo]) simp
  then show ?thesis using assms
    by (simp add: Eye_init_def Eye_build_def flat_isolate_right Let_def)
qed

lemma refresh_keeps_collaborators:
  "face_detector (fst (refresh cv f g)) = face_detector g \<and>
   predictor (fst (refresh cv f g)) = predictor g"
  unfolding refresh_def GazeTracking_analyze_def Let_def
  by (auto simp add: except_IndexError_def split: sum.splits prod.splits)

lemma demo_first_face: "py_index [(0, 0, 60, 40)] 0 = Inr ((0, 0, 60, 40) :: rectangle)"
  by (simp add: py_index_def)

lemma open_refresh:
  assumes fd: "face_detector g = get_frontal_face_detector demo_dlib"
    and pr: "predictor g = shape_predictor demo_dlib"
    and nb: "nb_frames (gaze_calibration g) = 20"
    and short: "length (thresholds_right (gaze_calibration g)) < 20"
  shows "gaze_calibration (fst (refresh demo_cv open_frame g)) =
           (gaze_calibration g)
             \<lparr>thresholds_left := thresholds_left (gaze_calibration g) @ [45],
              thresholds_right := thresholds_right (gaze_calibration g) @ [85]\<rparr>"
proof -
  let ?cal = "gaze_calibration g"
  let ?cal1 = "?cal\<lparr>thresholds_left := thresholds_left ?cal @ [45]\<rparr>"
  have n0: "\<not> is_complete ?cal" using nb short by (simp add: is_complete_def)
  have n1: "\<not> is_complete ?cal1" using nb short by (simp add: is_complete_def)
  obtain el where l: "Eye_init demo_cv open_frame open_landmarks 0 ?cal = (?cal1, Inr el)"
    using open_init_left [OF n0] by blast
  obtain er where r: "Eye_init demo_cv open_frame open_landmarks 1 ?cal1 =
      (?cal1\<lparr>thresholds_right := thresholds_right ?cal1 @ [85]\<rparr>, Inr er)"
    using open_init_right [OF n1] by blast
  have lm: "shape_predictor demo_dlib open_frame (0, 0, 60, 40) = open_landmarks"
    by (simp add: demo_dlib_def open_frame_def)
  have fs: "get_frontal_face_detector demo_dlib open_frame = [(0, 0, 60, 40)]"
    by (simp add: demo_dlib_def)
  have cc: "cvtColor demo_cv open_frame = open_frame" by (simp add: demo_cv_def)
  show ?thesis
    unfolding refresh_def GazeTracking_analyze_def Let_def
    by (simp add: fd pr cc fs demo_first_face lm l r)
qed

lemma flat_refresh:
  assumes fd: "face_detector g = get_frontal_face_detector demo_dlib"
    and pr: "predictor g = shape_predictor demo_dlib"
    and nb: "nb_frames (gaze_calibration g) = 20"
    and short: "length (thresholds_right (gaze_calibration g)) < 20"
  shows "gaze_calibration (fst (refresh demo_cv flat_frame g)) =
           (gaze_calibration g)\<lparr>thresholds_left := thresholds_left (gaze_calibration g) @ [45]\<rparr>
         \<and> snd (refresh demo_cv flat_frame g) = Inl ZeroDivisionError"
proof -
  let ?cal = "gaze_calibration g"
  let ?cal1 = "?cal\<lparr>thresholds_left := thresholds_left ?cal @ [45]\<rparr>"
  have n0: "\<not> is_complete ?cal" using nb short by (simp add: is_complete_def)
  have n1: "\<not> is_complete ?cal1" using nb short by (simp add: is_complete_def)
  obtain el where l: "Eye_init demo_cv flat_frame flat_right_landmarks 0 ?cal = (?cal1, Inr el)"
    using flat_init_left [OF n0] by blast
  have r: "Eye_init demo_cv flat_frame flat_right_landmarks 1 ?cal1 = (?cal1, Inl ZeroDivisionError)"
    by (rule flat_init_right [OF n1])
  have lm: "shape_predictor demo_dlib flat_frame (0, 0, 60, 40) = flat_right_landmarks"
    by (simp add: demo_dlib_def flat_frame_def)
  have fs: "get_frontal_face_detector demo_dlib flat_frame = [(0, 0, 60, 40)]"
    by (simp add: demo_dlib_def)
  have cc: "cvtColor demo_cv flat_frame = flat_frame" by (simp add: demo_cv_def)
  show ?thesis
    unfolding refresh_def GazeTracking_analyze_def Let_def
    by (simp add: fd pr cc fs demo_first_face lm l r except_IndexError_def)
qed

lemma session_after_snoc:
  "session_after cv (fs @ [f]) g = fst (refresh cv f (session_after cv fs g))"
  by (simp add: session_after_def)

lemma session_keeps_collaborators:
  "face_detector (session_after cv fs g) = face_detector g \<and>
   predictor (session_after cv fs g) = predictor g"
  by (induction fs rule: rev_induct)
     (simp_all add: session_after_def refresh_keeps_collaborators)

lemma open_session:
  "n \<le> 20 \<Longrightarrow>
   gaze_calibration (session_after demo_cv (replicate n open_frame) (GazeTracking_init demo_dlib)) =
     \<lparr>nb_frames = 20, thresholds_left = replicate n 45, thresholds_right = replicate n 85\<rparr>"
proof (induction n)
  case 0
  show ?case by (simp add: session_after_def GazeTracking_init_def Calibration_init_def)
next
  case (Suc n)
  let ?g = "session_after demo_cv (replicate n open_frame) (GazeTracking_init demo_dlib)"
  have cal: "gaze_calibration ?g =
      \<lparr>nb_frames = 20, thresholds_left = replicate n 45, thresholds_right = replicate n 85\<rparr>"
    using Suc by simp
  have fd: "face_detector ?g = get_frontal_face_detector demo_dlib"
    and pr: "predictor ?g = shape_predictor demo_dlib"
    by (simp_all add: session_keeps_collaborators GazeTracking_init_def)
  have nb: "nb_frames (gaze_calibration ?g) = 20" by (simp add: cal)
  have short: "length (thresholds_right (gaze_calibration ?g)) < 20"
    using Suc.prems by (simp add: cal)
  have "replicate (Suc n) open_frame = replicate n open_frame @ [open_frame]"
    by (simp add: replicate_append_same)
  then have "session_after demo_cv (replicate (Suc n) open_frame) (GazeTracking_init demo_dlib)
      = fst (refresh demo_cv open_frame ?g)"
    by (simp only: session_after_snoc)
  then show ?case
    by (simp add: open_refresh [OF fd pr nb short] cal replicate_append_same)
qed

lemma open_refresh_returns:
  assumes fd: "face_detector g = get_frontal_face_detector demo_dlib"
    and pr: "predictor g = shape_predictor demo_dlib"
    and nb: "nb_frames (gaze_calibration g) = 20"
    and short: "length (thresholds_right (gaze_calibration g)) < 20"
  shows "snd (refresh demo_cv open_frame g) = Inr ()"
proof -
  let ?cal = "gaze_calibration g"
  let ?cal1 = "?cal\<lparr>thresholds_left := thresholds_left ?cal @ [45]\<rparr>"
  have n0: "\<not> is_complete ?cal" using nb short by (simp add: is_complete_def)
  have n1: "\<not> is_complete ?cal1" using nb short by (simp add: is_complete_def)
  obtain el where l: "Eye_init demo_cv open_frame open_landmarks 0 ?cal = (?cal1, Inr el)"
    using open_init_left [OF n0] by blast
  obtain er where r: "Eye_init demo_cv open_frame open_landmarks 1 ?cal1 =
      (?cal1\<lparr>thresholds_right := thresholds_right ?cal1 @ [85]\<rparr>, Inr er)"
    using open_init_right [OF n1] by blast
  have lm: "shape_predictor demo_dlib open_frame (0, 0, 60, 40) = open_landmarks"
    by (simp add: demo_dlib_def open_frame_def)
  have fs: "get_frontal_face_detector demo_dlib open_frame = [(0, 0, 60, 40)]"
    by (simp add: demo_dlib_def)
  have cc: "cvtColor demo_cv open_frame = open_frame" by (simp add: demo_cv_def)
  show ?thesis
    unfolding refresh_def GazeTracking_analyze_def Let_def
    by (simp add: fd pr cc fs demo_first_face lm l r)
qed

text \<open>
  Claim C9 as stated fails when a call of \<^verbatim>\<open>refresh\<close> raises between the two eyes. After 19
  frames with open eyes, a frame whose right eye is flat lets the left eye append its 20th
  sample and then raises ZeroDivisionError in the right eye: the lists have 20 and 19
  elements. The next frame finds \<^verbatim>\<open>is_complete()\<close> false and appends on both sides: the
  left list has 21 elements.
\<close>

theorem session_cap_counterexample:
  "snd (refresh demo_cv flat_frame
          (session_after demo_cv (replicate 19 open_frame) (GazeTracking_init demo_dlib)))
     = Inl ZeroDivisionError
   \<and> length (thresholds_left (gaze_calibration
        (session_after demo_cv (replicate 19 open_frame @ [flat_frame])
           (GazeTracking_init demo_dlib)))) = 20
   \<and> length (thresholds_right (gaze_calibration
        (session_after demo_cv (replicate 19 open_frame @ [flat_frame])
           (GazeTracking_init demo_dlib)))) = 19
   \<and> length (thresholds_left (gaze_calibration
        (session_after demo_cv (replicate 19 open_frame @ [flat_frame, open_frame])
           (GazeTracking_init demo_dlib)))) = 21
   \<and> length (thresholds_right (gaze_calibration
        (session_after demo_cv (replicate 19 open_frame @ [flat_frame, open_frame])
           (GazeTracking_init demo_dlib)))) = 20"
proof -
  let ?g0 = "GazeTracking_init demo_dlib"
  let ?g19 = "session_after demo_cv (replicate 19 open_frame) ?g0"
  let ?g20 = "session_after demo_cv (replicate 19 open_frame @ [flat_frame]) ?g0"
  let ?g21 = "session_after demo_cv (replicate 19 open_frame @ [flat_frame, open_frame]) ?g0"
  have cal19: "gaze_calibration ?g19 =
      \<lparr>nb_frames = 20, thresholds_left = replicate 19 45, thresholds_right = replicate 19 85\<rparr>"
    by (rule open_session) simp
  have fd19: "face_detector ?g19 = get_frontal_face_detector demo_dlib"
    and pr19: "predictor ?g19 = shape_predictor demo_dlib"
    by (simp_all add: session_keeps_collaborators GazeTracking_init_def)
  have nb19: "nb_frames (gaze_calibration ?g19) = 20" by (simp add: cal19)
  have short19: "length (thresholds_right (gaze_calibration ?g19)) < 20" by (simp add: cal19)
  note flat = flat_refresh [OF fd19 pr19 nb19 short19]
  have g20: "?g20 = fst (refresh demo_cv flat_frame ?g19)" by (rule session_after_snoc)
  have cal20: "gaze_calibration ?g20 =
      \<lparr>nb_frames = 20, thresholds_left = replicate 19 45 @ [45], thresholds_right = replicate 19 85\<rparr>"
    unfolding g20 using flat by (simp add: cal19)
  have fd20: "face_detector ?g20 = get_frontal_face_detector demo_dlib"
    and pr20: "predictor ?g20 = shape_predictor demo_dlib"
    by (simp_all add: session_keeps_collaborators GazeTracking_init_def)
  have nb20: "nb_frames (gaze_calibration ?g20) = 20" by (simp add: cal20)
  have short20: "length (thresholds_right (gaze_calibration ?g20)) < 20" by (simp add: cal20)
  have "replicate 19 open_frame @ [flat_frame, open_frame]
          = (replicate 19 open_frame @ [flat_frame]) @ [open_frame]" by simp
  then have g21: "?g21 = fst (refresh demo_cv open_frame ?g20)"
    by (simp only: session_after_snoc)
  have cal21: "gaze_calibration ?g21 =
      \<lparr>nb_frames = 20, thresholds_left = (replicate 19 45 @ [45]) @ [45],
       thresholds_right = replicate 19 85 @ [85]\<rparr>"
    unfolding g21 open_refresh [OF fd20 pr20 nb20 short20] by (simp add: cal20)
  show ?thesis using flat by (simp add: cal20 cal21)
qed

text \<open>
  Claim C9, amended. In a session started by \<^verbatim>\<open>GazeTracking()\<close> in which every call of
  \<^verbatim>\<open>refresh\<close> so far has returned without raising, the two sample lists have the same
  length and at most 20 elements.
\<close>

theorem session_cap_without_exception:
  assumes "refresh_all cv fs (GazeTracking_init dl) = Inr g"
  shows "length (thresholds_left (gaze_calibration g)) = length (thresholds_right (gaze_calibration g))
       \<and> length (thresholds_left (gaze_calibration g)) \<le> 20"
proof -
  have "nb_frames (gaze_calibration (GazeTracking_init dl)) = 20"
    and "length (thresholds_left (gaze_calibration (GazeTracking_init dl)))
          = length (thresholds_right (gaze_calibration (GazeTracking_init dl)))"
    and "length (thresholds_left (gaze_calibration (GazeTracking_init dl))) \<le> 20"
    by (simp_all add: GazeTracking_init_def Calibration_init_def)
  from refresh_all_invariant [OF assms this] show ?thesis by simp
qed

theorem session_cap_without_exception_witness:
  "refresh_all demo_cv [open_frame] (GazeTracking_init demo_dlib)
     = Inr (session_after demo_cv [open_frame] (GazeTracking_init demo_dlib))
   \<and> length (thresholds_left (gaze_calibration
        (session_after demo_cv [open_frame] (GazeTracking_init demo_dlib)))) = 1
   \<and> length (thresholds_right (gaze_calibration
        (session_after demo_cv [open_frame] (GazeTracking_init demo_dlib)))) = 1"
proof -
  let ?g0 = "GazeTracking_init demo_dlib"
  have fd: "face_detector ?g0 = get_frontal_face_detector demo_dlib"
    and pr: "predictor ?g0 = shape_predictor demo_dlib"
    and nb: "nb_frames (gaze_calibration ?g0) = 20"
    and short: "length (thresholds_right (gaze_calibration ?g0)) < 20"
    by (simp_all add: GazeTracking_init_def Calibration_init_def)
  have "snd (refresh demo_cv open_frame ?g0) = Inr ()"
    by (rule open_refresh_returns [OF fd pr nb short])
  then have run: "refresh_all demo_cv [open_frame] ?g0
      = Inr (session_after demo_cv [open_frame] ?g0)"
    by (cases "refresh demo_cv open_frame ?g0") (simp add: session_after_def)
  have "gaze_calibration (session_after demo_cv [open_frame] ?g0)
      = \<lparr>nb_frames = 20, thresholds_left = [45], thresholds_right = [85]\<rparr>"
    using open_refresh [OF fd pr nb short]
    by (simp add: session_after_def GazeTracking_init_def Calibration_init_def)
  then show ?thesis
    using run session_cap_without_exception [OF run] by simp
qed

end
